theory Spec2Isabelle
  imports Complex_Main "HOL-Library.AList"
begin

text \<open>
  A model of \<^verbatim>\<open>tap_exchangeratesapi/__init__.py\<close>: \<^verbatim>\<open>parse_response\<close>, \<^verbatim>\<open>giveup\<close>,
  \<^verbatim>\<open>request\<close> under its \<^verbatim>\<open>backoff\<close> decorator, and \<^verbatim>\<open>do_sync\<close>.  The HTTP
  server, the random numbers of the jitter and the clock are inputs; the messages that
  \<^verbatim>\<open>singer\<close> writes and the way the process ends are the result.  Exceptions are
  values, the module's mutable \<^verbatim>\<open>schema\<close> is passed along, and the dictionary that
  \<^verbatim>\<open>parse_response\<close> mutates lives in a store.
\<close>

section \<open>Calendar dates and the two date formats of the tap\<close>

text \<open>
  The tap keeps its cursor as a string in the format \<^verbatim>\<open>DATE_FORMAT = "%Y-%m-%d"\<close>
  and goes through \<^verbatim>\<open>datetime.strptime\<close>, \<^verbatim>\<open>timedelta(days=1)\<close> and
  \<^verbatim>\<open>strftime\<close> at every step.  A calendar date is a triple of naturals; the
  functions below are the standard library's behaviour on that one format: a four digit
  year, a month and a day of one or two digits, and the proleptic Gregorian calendar
  with years 1 to 9999.  Digits are the ASCII digits.
\<close>

datatype ymd = Ymd (year: nat) (month: nat) (day: nat)

definition is_digit :: "char \<Rightarrow> bool" where
  "is_digit c = (48 \<le> (of_char c :: nat) \<and> (of_char c :: nat) \<le> 57)"

definition digit_val :: "char \<Rightarrow> nat" where
  "digit_val c = of_char c - 48"

definition digit_char :: "nat \<Rightarrow> char" where
  "digit_char n = ''0123456789'' ! n"

definition is_leap :: "nat \<Rightarrow> bool" where
  "is_leap y = (if y mod 100 = 0 then y mod 400 = 0 else y mod 4 = 0)"

definition days_in_month :: "nat \<Rightarrow> nat \<Rightarrow> nat" where
  "days_in_month y m =
     (if m = 2 then (if is_leap y then 29 else 28)
      else if m = 4 \<or> m = 6 \<or> m = 9 \<or> m = 11 then 30 else 31)"

text \<open>The dates a \<^verbatim>\<open>datetime\<close> can hold: \<^verbatim>\<open>MINYEAR = 1\<close>, \<^verbatim>\<open>MAXYEAR = 9999\<close>.\<close>

definition valid_date :: "ymd \<Rightarrow> bool" where
  "valid_date d =
     (1 \<le> year d \<and> year d \<le> 9999 \<and> 1 \<le> month d \<and> month d \<le> 12 \<and>
      1 \<le> day d \<and> day d \<le> days_in_month (year d) (month d))"

text \<open>
  The month field of \<^verbatim>\<open>%m\<close> is \<^verbatim>\<open>1[0-2]|0[1-9]|[1-9]\<close> and the day field of
  \<^verbatim>\<open>%d\<close> is \<^verbatim>\<open>3[0-1]|[1-2]\d|0[1-9]|[1-9]| [1-9]\<close>: one or two digits with a value
  in range, and for the day also a blank followed by a non-zero digit.
\<close>

definition parse_month :: "string \<Rightarrow> nat option" where
  "parse_month s =
     (case s of
        [a] \<Rightarrow> if is_digit a \<and> 1 \<le> digit_val a then Some (digit_val a) else None
      | [a, b] \<Rightarrow>
          if is_digit a \<and> is_digit b \<and> 1 \<le> 10 * digit_val a + digit_val b
             \<and> 10 * digit_val a + digit_val b \<le> 12
          then Some (10 * digit_val a + digit_val b) else None
      | _ \<Rightarrow> None)"

definition parse_day :: "string \<Rightarrow> nat option" where
  "parse_day s =
     (case s of
        [a] \<Rightarrow> if is_digit a \<and> 1 \<le> digit_val a then Some (digit_val a) else None
      | [a, b] \<Rightarrow>
          if a = CHR '' '' \<and> is_digit b \<and> 1 \<le> digit_val b then Some (digit_val b)
          else if is_digit a \<and> is_digit b \<and> 1 \<le> 10 * digit_val a + digit_val b
             \<and> 10 * digit_val a + digit_val b \<le> 31
          then Some (10 * digit_val a + digit_val b) else None
      | _ \<Rightarrow> None)"

text \<open>
  \<^verbatim>\<open>strptime(s, "%Y-%m-%d")\<close>: \<open>None\<close> is the \<^verbatim>\<open>ValueError\<close> of a string that does
  not match the format, leaves unconverted data, or names a day that does not exist.
\<close>

definition strptime :: "string \<Rightarrow> ymd option" where
  "strptime s =
     (case s of
        y1 # y2 # y3 # y4 # dash # rest \<Rightarrow>
          if is_digit y1 \<and> is_digit y2 \<and> is_digit y3 \<and> is_digit y4 \<and> dash = CHR ''-''
             \<and> CHR ''-'' \<in> set rest
          then
            (case parse_month (takeWhile (\<lambda>c. c \<noteq> CHR ''-'') rest) of
               None \<Rightarrow> None
             | Some m \<Rightarrow>
                 (case parse_day (tl (dropWhile (\<lambda>c. c \<noteq> CHR ''-'') rest)) of
                    None \<Rightarrow> None
                  | Some dd \<Rightarrow>
                      (let d = Ymd (1000 * digit_val y1 + 100 * digit_val y2
                                      + 10 * digit_val y3 + digit_val y4) m dd
                       in if valid_date d then Some d else None)))
          else None
      | _ \<Rightarrow> None)"

definition pad2 :: "nat \<Rightarrow> string" where
  "pad2 n = [digit_char (n div 10 mod 10), digit_char (n mod 10)]"

definition pad4 :: "nat \<Rightarrow> string" where
  "pad4 n = [digit_char (n div 1000 mod 10), digit_char (n div 100 mod 10),
             digit_char (n div 10 mod 10), digit_char (n mod 10)]"

text \<open>
  The directive \<^verbatim>\<open>%Y\<close> of \<^verbatim>\<open>strftime\<close> is printed by the C library, which
  does not pad: a year below 1000 comes out with its own one, two or three digits
  (\<^verbatim>\<open>'999-12-31'\<close>), and \<^verbatim>\<open>strptime\<close> does not take such a string back.
\<close>

definition year_digits :: "nat \<Rightarrow> string" where
  "year_digits y =
     (if y < 10 then [digit_char y]
      else if y < 100 then [digit_char (y div 10), digit_char (y mod 10)]
      else if y < 1000
        then [digit_char (y div 100), digit_char (y div 10 mod 10), digit_char (y mod 10)]
      else pad4 y)"

text \<open>\<^verbatim>\<open>strftime("%Y-%m-%d")\<close>: the month and the day are zero padded.\<close>

definition strftime :: "ymd \<Rightarrow> string" where
  "strftime d = year_digits (year d) @ ''-'' @ pad2 (month d) @ ''-'' @ pad2 (day d)"

text \<open>
  \<^verbatim>\<open>time.strftime("%Y-%m-%dT%H:%M:%SZ", t)\<close> on the result of \<^verbatim>\<open>time.strptime\<close>
  with the date-only format: the clock fields of \<open>t\<close> are all zero.
\<close>

definition strftime_utc :: "ymd \<Rightarrow> string" where
  "strftime_utc d = strftime d @ ''T00:00:00Z''"

text \<open>
  \<^verbatim>\<open>d + timedelta(days=1)\<close>; \<open>None\<close> is the \<^verbatim>\<open>OverflowError\<close> past
  9999-12-31.
\<close>

definition add_day :: "ymd \<Rightarrow> ymd option" where
  "add_day d =
     (if day d < days_in_month (year d) (month d) then Some (Ymd (year d) (month d) (day d + 1))
      else if month d < 12 then Some (Ymd (year d) (month d + 1) 1)
      else if year d < 9999 then Some (Ymd (year d + 1) 1 1)
      else None)"

text \<open>
  The loop test compares the cursor's midnight with \<^verbatim>\<open>datetime.utcnow()\<close>.  A
  midnight is at or before a moment of time exactly when its date is at or before the
  date of that moment, so the clock is represented by its date alone.
\<close>

definition date_le :: "ymd \<Rightarrow> ymd \<Rightarrow> bool" where
  "date_le a b =
     (year a < year b \<or> (year a = year b \<and>
        (month a < month b \<or> (month a = month b \<and> day a \<le> day b))))"

text \<open>A strictly monotone numbering of the valid dates, used to measure the loop.\<close>

definition date_key :: "ymd \<Rightarrow> nat" where
  "date_key d = 416 * year d + 32 * month d + day d"

subsection \<open>Facts about the date functions\<close>

lemma below_ten: "n < 10 \<Longrightarrow> n \<in> {0, 1, 2, 3, 4, 5, 6, 7, 8, 9 :: nat}"
  by auto

lemma is_digit_digit_char: "n < 10 \<Longrightarrow> is_digit (digit_char n)"
  using below_ten [of n] by (auto simp: is_digit_def digit_char_def)

lemma digit_val_digit_char: "n < 10 \<Longrightarrow> digit_val (digit_char n) = n"
  using below_ten [of n] by (auto simp: digit_val_def digit_char_def)

lemma digit_char_not_dash: "n < 10 \<Longrightarrow> digit_char n \<noteq> CHR ''-''"
  using below_ten [of n] by (auto simp: digit_char_def)

lemma digit_char_not_blank: "n < 10 \<Longrightarrow> digit_char n \<noteq> CHR '' ''"
  using below_ten [of n] by (auto simp: digit_char_def)

lemma two_digits:
  assumes "(n::nat) < 100"
  shows "10 * (n div 10 mod 10) + n mod 10 = n"
proof -
  from assms have "n div 10 < 10" by simp
  then have "n div 10 mod 10 = n div 10" by simp
  then show ?thesis by simp
qed

lemma four_digits:
  assumes "(y::nat) < 10000"
  shows "1000 * (y div 1000 mod 10) + 100 * (y div 100 mod 10) + 10 * (y div 10 mod 10)
           + y mod 10 = y"
proof -
  have a: "y div 10 div 10 = y div 100" and b: "y div 100 div 10 = y div 1000"
    by (simp_all add: div_mult2_eq [symmetric])
  from assms have "y div 1000 < 10" by simp
  then have c: "y div 1000 mod 10 = y div 1000" by simp
  have e1: "y = 10 * (y div 10) + y mod 10" by simp
  have e2: "y div 10 = 10 * (y div 100) + y div 10 mod 10"
    using div_mult_mod_eq [of "y div 10" 10] a by simp
  have e3: "y div 100 = 10 * (y div 1000) + y div 100 mod 10"
    using div_mult_mod_eq [of "y div 100" 10] b by simp
  show ?thesis using e1 e2 e3 c by linarith
qed

lemma days_in_month_bounds: "28 \<le> days_in_month y m \<and> days_in_month y m \<le> 31"
  by (simp add: days_in_month_def)

lemma parse_month_pad2:
  assumes "1 \<le> m" "m \<le> 12"
  shows "parse_month (pad2 m) = Some m"
proof -
  define a b where "a = m div 10 mod 10" and "b = m mod 10"
  have ab: "a < 10" "b < 10" by (simp_all add: a_def b_def)
  have v: "10 * a + b = m" unfolding a_def b_def using assms by (intro two_digits) simp
  have "pad2 m = [digit_char a, digit_char b]" by (simp add: pad2_def a_def b_def)
  then show ?thesis
    using assms ab v
    by (simp add: parse_month_def is_digit_digit_char digit_val_digit_char)
qed

lemma parse_day_pad2:
  assumes "1 \<le> n" "n \<le> 31"
  shows "parse_day (pad2 n) = Some n"
proof -
  define a b where "a = n div 10 mod 10" and "b = n mod 10"
  have ab: "a < 10" "b < 10" by (simp_all add: a_def b_def)
  have v: "10 * a + b = n" unfolding a_def b_def using assms by (intro two_digits) simp
  have "pad2 n = [digit_char a, digit_char b]" by (simp add: pad2_def a_def b_def)
  then show ?thesis
    using assms ab v
    by (simp add: parse_day_def is_digit_digit_char digit_val_digit_char digit_char_not_blank)
qed

lemma pad2_no_dash: "x \<in> set (pad2 n) \<Longrightarrow> x \<noteq> CHR ''-''"
proof -
  have a: "n div 10 mod 10 < 10" and b: "n mod 10 < 10" by simp_all
  assume "x \<in> set (pad2 n)"
  then show ?thesis
    using digit_char_not_dash [OF a] digit_char_not_dash [OF b]
    by (auto simp: pad2_def)
qed

lemma strptime_valid: "strptime s = Some d \<Longrightarrow> valid_date d"
  by (auto simp: strptime_def Let_def split: list.splits if_splits option.splits)

lemma strptime_pieces:
  assumes "is_digit y1" "is_digit y2" "is_digit y3" "is_digit y4"
    and "parse_month ms = Some m" "parse_day ds = Some n"
    and "\<And>x. x \<in> set ms \<Longrightarrow> x \<noteq> CHR ''-''"
    and "valid_date (Ymd (1000 * digit_val y1 + 100 * digit_val y2 + 10 * digit_val y3
                           + digit_val y4) m n)"
  shows "strptime (y1 # y2 # y3 # y4 # CHR ''-'' # ms @ CHR ''-'' # ds)
           = Some (Ymd (1000 * digit_val y1 + 100 * digit_val y2 + 10 * digit_val y3
                         + digit_val y4) m n)"
proof -
  have tw: "takeWhile (\<lambda>c. c \<noteq> CHR ''-'') (ms @ CHR ''-'' # ds) = ms"
    using assms(7) by simp
  have dw: "dropWhile (\<lambda>c. c \<noteq> CHR ''-'') (ms @ CHR ''-'' # ds) = CHR ''-'' # ds"
    using assms(7) by simp
  show ?thesis
    unfolding strptime_def using assms(1-6,8) by (simp add: tw dw)
qed

lemma strptime_strftime:
  assumes "valid_date d" "1000 \<le> year d"
  shows "strptime (strftime d) = Some d"
proof -
  obtain y m n where d: "d = Ymd y m n" by (cases d)
  from assms d have y: "1000 \<le> y" "y \<le> 9999" and m: "1 \<le> m" "m \<le> 12" and n: "1 \<le> n"
    and n': "n \<le> days_in_month y m"
    by (simp_all add: valid_date_def)
  from n' have n31: "n \<le> 31" using days_in_month_bounds [of y m] by arith
  define a b c e where "a = y div 1000 mod 10" and "b = y div 100 mod 10"
    and "c = y div 10 mod 10" and "e = y mod 10"
  have q: "a < 10" "b < 10" "c < 10" "e < 10" by (simp_all add: a_def b_def c_def e_def)
  have yv: "1000 * a + 100 * b + 10 * c + e = y"
    unfolding a_def b_def c_def e_def using y by (intro four_digits) simp
  have p4: "year_digits y = [digit_char a, digit_char b, digit_char c, digit_char e]"
    using y by (simp add: year_digits_def pad4_def a_def b_def c_def e_def)
  have v: "valid_date (Ymd (1000 * digit_val (digit_char a) + 100 * digit_val (digit_char b)
             + 10 * digit_val (digit_char c) + digit_val (digit_char e)) m n)"
    using assms d q yv by (simp add: digit_val_digit_char)
  have "strptime (digit_char a # digit_char b # digit_char c # digit_char e # CHR ''-''
           # pad2 m @ CHR ''-'' # pad2 n)
         = Some (Ymd (1000 * digit_val (digit_char a) + 100 * digit_val (digit_char b)
             + 10 * digit_val (digit_char c) + digit_val (digit_char e)) m n)"
    using q pad2_no_dash [of _ m] v
    by (intro strptime_pieces is_digit_digit_char parse_month_pad2 [OF m]
        parse_day_pad2 [OF n n31])
  then show ?thesis
    using q yv by (simp add: strftime_def d p4 digit_val_digit_char)
qed

lemma strptime_strftime_below:
  assumes "year d < 1000"
  shows "strptime (strftime d) = None"
proof -
  have nd: "\<not> is_digit (CHR ''-'')" by (simp add: is_digit_def)
  show ?thesis
    using assms nd
    by (simp add: strptime_def strftime_def year_digits_def pad2_def)
qed

lemma strptime_strftime_iff:
  assumes "valid_date d"
  shows "(strptime (strftime d) = Some d) = (1000 \<le> year d)"
proof (cases "1000 \<le> year d")
  case True
  with strptime_strftime [OF assms] show ?thesis by simp
next
  case False
  then have "year d < 1000" by simp
  from strptime_strftime_below [OF this] False show ?thesis by simp
qed

lemma strptime_strftime_cases:
  assumes "valid_date d"
  shows "strptime (strftime d) = (if 1000 \<le> year d then Some d else None)"
  using strptime_strftime [OF assms] strptime_strftime_below [of d] by auto

lemma add_day_valid:
  assumes "valid_date d" "add_day d = Some d'"
  shows "valid_date d'"
  using assms days_in_month_bounds [of "year d" "Suc (month d)"]
    days_in_month_bounds [of "Suc (year d)" "Suc 0"]
  by (auto simp: valid_date_def add_day_def split: if_splits)

lemma add_day_key:
  assumes "valid_date d" "add_day d = Some d'"
  shows "date_key d < date_key d'"
  using assms days_in_month_bounds [of "year d" "month d"]
  by (auto simp: valid_date_def add_day_def date_key_def split: if_splits)

lemma date_le_key:
  assumes "valid_date a" "date_le a b"
  shows "date_key a \<le> date_key b"
  using assms days_in_month_bounds [of "year a" "month a"]
  by (auto simp: valid_date_def date_le_def date_key_def)

section \<open>Python values: dictionaries, objects, exceptions\<close>

text \<open>
  A JSON number or string.  Rates are decoded to Python floats; the tap only stores and
  compares them, so a number is a real.
\<close>

datatype val = Num real | Str string

text \<open>
  A Python \<^verbatim>\<open>dict\<close> is an association list in insertion order with distinct keys:
  \<^verbatim>\<open>d[k]\<close> is \<open>map_of d k\<close>, \<^verbatim>\<open>d[k] = v\<close> is \<^const>\<open>AList.update\<close> (an
  existing key keeps its place, a new key goes last), \<^verbatim>\<open>k in d\<close> is
  \<open>map_of d k \<noteq> None\<close> and iteration goes over \<open>map fst d\<close>.  Equality of
  dictionaries ignores the order.
\<close>

type_synonym 'v dict = "(string \<times> 'v) list"

definition dict_eq :: "'v dict \<Rightarrow> 'v dict \<Rightarrow> bool" where
  "dict_eq a b = list_all (\<lambda>k. map_of a k = map_of b k) (map fst a @ map fst b)"

text \<open>
  \<^verbatim>\<open>parse_response\<close> mutates a dictionary that its argument refers to, so the
  dictionaries of rates live in a store of objects and a payload holds a reference.
\<close>

type_synonym addr = nat

type_synonym heap = "addr \<Rightarrow> val dict"

text \<open>
  The decoded response body \<^verbatim>\<open>{"base": .., "date": .., "rates": {..}}\<close>; a key can
  be absent.  \<open>j_rates\<close> is the object as \<^verbatim>\<open>response.json()\<close> decodes it.  The
  model covers the bodies that are a JSON object whose \<^verbatim>\<open>base\<close> and \<^verbatim>\<open>date\<close>, when
  present, are strings and whose \<^verbatim>\<open>rates\<close>, when present, is an object of numbers.
\<close>

record body =
  j_base :: "string option"
  j_date :: "string option"
  j_rates :: "real dict option"

record payload =
  p_base :: "string option"
  p_date :: "string option"
  p_rates :: "addr option"

text \<open>
  The tap never looks at the value under \<^verbatim>\<open>base\<close>.  What the service puts there
  is a currency code in the sense of ISO 4217: three capital letters.
\<close>

definition is_upper :: "char \<Rightarrow> bool" where
  "is_upper c = (c \<in> set ''ABCDEFGHIJKLMNOPQRSTUVWXYZ'')"

definition currency_code :: "string \<Rightarrow> bool" where
  "currency_code s = (length s = 3 \<and> list_all is_upper s)"

text \<open>
  \<^verbatim>\<open>response.json()\<close> builds new objects at every call: the payload of an iteration
  has its rates in a store of its own, at address 0.
\<close>

definition json_load :: "body \<Rightarrow> payload \<times> heap" where
  "json_load b =
     (\<lparr>p_base = j_base b, p_date = j_date b,
       p_rates = (case j_rates b of None \<Rightarrow> None | Some rs \<Rightarrow> Some 0)\<rparr>,
      (\<lambda>a. []) (0 := (case j_rates b of None \<Rightarrow> [] | Some rs \<Rightarrow> map (\<lambda>(k, x). (k, Num x)) rs)))"

record response =
  status_code :: nat
  body_text :: string
  json_body :: body

datatype exn =
    KeyError string
  | RequestException "string option" "response option"
  | AttributeError
  | ValueError
  | OverflowError

fun is_RequestException :: "exn \<Rightarrow> bool" where
  "is_RequestException (RequestException req resp) = True"
| "is_RequestException e = False"

section \<open>The tap\<close>

definition base_url :: string where
  "base_url = ''http://api.apilayer.com/exchangerates_data/''"

text \<open>
  \<^verbatim>\<open>parse_response(r)\<close>.  The result is the store after the call and either the
  exception raised or the reference returned; an assignment made before an exception
  stays in the store.
\<close>

definition parse_response :: "payload \<Rightarrow> heap \<Rightarrow> heap \<times> (exn + addr)" where
  "parse_response r h =
     (case p_rates r of
        None \<Rightarrow> (h, Inl (KeyError ''rates''))
      | Some flattened \<Rightarrow>
          (case p_base r of
             None \<Rightarrow> (h, Inl (KeyError ''base''))
           | Some b \<Rightarrow>
               (let h1 = h(flattened := AList.update b (Num 1) (h flattened));
                    h2 = h1(flattened := AList.update ''base'' (Str b) (h1 flattened))
                in (case p_date r of
                      None \<Rightarrow> (h2, Inl (KeyError ''date''))
                    | Some dt \<Rightarrow>
                        (case strptime dt of
                           None \<Rightarrow> (h2, Inl ValueError)
                         | Some d \<Rightarrow>
                             (h2(flattened :=
                                   AList.update ''date'' (Str (strftime_utc d)) (h2 flattened)),
                              Inr flattened))))))"

text \<open>
  The three shapes of a property of the schema:
  \<^verbatim>\<open>{"type": "string", "format": "date-time"}\<close>, \<^verbatim>\<open>{"type": "string"}\<close> and
  \<^verbatim>\<open>{"type": ["null", "number"]}\<close>.
\<close>

datatype property = String_date_time | String_plain | Null_or_number

record json_schema =
  stype :: string
  properties :: "property dict"

text \<open>The module-level \<^verbatim>\<open>schema\<close>, as the module is loaded.\<close>

definition schema :: json_schema where
  "schema = \<lparr>stype = ''object'',
             properties = [(''date'', String_date_time), (''base'', String_plain)]\<rparr>"

text \<open>
  \<^verbatim>\<open>prev_schema\<close> is \<^verbatim>\<open>{}\<close> before the first iteration and a deep copy of the
  schema afterwards.  The schema always has the key \<^verbatim>\<open>"type"\<close>, so it is never
  equal to the empty dictionary.
\<close>

datatype snapshot = Empty_dict | Deepcopy json_schema

fun schema_ne :: "json_schema \<Rightarrow> snapshot \<Rightarrow> bool" where
  "schema_ne s Empty_dict = True"
| "schema_ne s (Deepcopy p) = (\<not> (stype s = stype p \<and> dict_eq (properties s) (properties p)))"

text \<open>
  The loop \<^verbatim>\<open>for rate in payload["rates"]: if rate not in schema["properties"]: ...\<close>
  over the keys of the rates.
\<close>

fun add_rates :: "string list \<Rightarrow> property dict \<Rightarrow> property dict" where
  "add_rates [] ps = ps"
| "add_rates (rate # rates) ps =
     add_rates rates
       (if map_of ps rate = None then AList.update rate Null_or_number ps else ps)"

subsection \<open>The fetch client\<close>

text \<open>
  What one call of \<^verbatim>\<open>requests.get\<close> meets: a response, or a failure below HTTP
  (connection error, timeout), which \<^verbatim>\<open>requests\<close> raises as a
  \<^verbatim>\<open>RequestException\<close> whose \<^verbatim>\<open>response\<close> is \<^verbatim>\<open>None\<close>.  The environment
  gives the outcome of every attempt on every URL, and the random numbers of the jitter.
\<close>

datatype attempt = Response response | No_response

record env =
  http_get :: "string \<Rightarrow> string \<Rightarrow> nat \<Rightarrow> attempt"
  random :: "nat \<Rightarrow> real"

text \<open>\<^verbatim>\<open>Response.raise_for_status\<close> raises for the statuses 400 to 599.\<close>

definition raise_for_status :: "string \<Rightarrow> response \<Rightarrow> exn + response" where
  "raise_for_status url r =
     (if 400 \<le> status_code r \<and> status_code r < 600
      then Inl (RequestException (Some url) (Some r)) else Inr r)"

text \<open>
  \<^verbatim>\<open>giveup(error)\<close> reads \<^verbatim>\<open>error.response.text\<close> first; on an error without a
  response that raises \<^verbatim>\<open>AttributeError\<close>.
\<close>

fun giveup :: "exn \<Rightarrow> exn + bool" where
  "giveup (RequestException req (Some r)) =
     Inr (\<not> (status_code r = 429 \<or> 500 \<le> status_code r))"
| "giveup error = Inl AttributeError"

text \<open>
  \<^verbatim>\<open>backoff.on_exception(backoff.constant, RequestException, jitter=random_jitter,
  max_tries, giveup, interval)\<close>: call the target; on a \<^verbatim>\<open>RequestException\<close> ask
  \<^verbatim>\<open>giveup\<close>, then the attempt budget; otherwise sleep \<open>interval + random\<close> and try
  again.  Any other exception, also one raised by \<^verbatim>\<open>giveup\<close> itself, leaves the
  loop at once.  \<open>tries\<close> counts the attempts made, from 0; the budget is used up when
  the attempt just made is number \<open>max_tries\<close>.  The result carries the sleeps made,
  in order.
\<close>

function on_exception ::
  "real \<Rightarrow> nat \<Rightarrow> (exn \<Rightarrow> exn + bool) \<Rightarrow> (nat \<Rightarrow> real) \<Rightarrow> (nat \<Rightarrow> exn + 'a) \<Rightarrow> nat
     \<Rightarrow> real list \<times> (exn + 'a)" where
  "on_exception interval max_tries gu jitter target tries =
     (case target (tries + 1) of
        Inr ret \<Rightarrow> ([], Inr ret)
      | Inl e \<Rightarrow>
          if is_RequestException e then
            (case gu e of
               Inl e' \<Rightarrow> ([], Inl e')
             | Inr g \<Rightarrow>
                 if g \<or> max_tries \<le> tries + 1 then ([], Inl e)
                 else (case on_exception interval max_tries gu jitter target (tries + 1) of
                         (sleeps, r) \<Rightarrow> ((interval + jitter (tries + 1)) # sleeps, r)))
          else ([], Inl e))"
  by pat_completeness auto
termination
  by (relation "measure (\<lambda>(interval, max_tries, gu, jitter, target, tries). max_tries - tries)")
    auto

declare on_exception.simps [simp del]

text \<open>The body of \<^verbatim>\<open>request\<close>, attempt number \<open>n\<close>.\<close>

definition request_body :: "env \<Rightarrow> string \<Rightarrow> string \<Rightarrow> nat \<Rightarrow> exn + response" where
  "request_body e url apikey n =
     (case http_get e url apikey n of
        No_response \<Rightarrow> Inl (RequestException (Some url) None)
      | Response r \<Rightarrow> raise_for_status url r)"

definition request :: "env \<Rightarrow> string \<Rightarrow> string \<Rightarrow> real list \<times> (exn + response)" where
  "request e url apikey = on_exception 30 5 giveup (random e) (request_body e url apikey) 0"

subsection \<open>The sync engine\<close>

text \<open>\<^verbatim>\<open>state = {"start_date": ..}\<close>.\<close>

record state =
  start_date :: string

text \<open>
  What \<^verbatim>\<open>singer.write_schema\<close>, \<^verbatim>\<open>singer.write_records\<close> (one message for each
  record) and \<^verbatim>\<open>singer.write_state\<close> put on the output stream.
\<close>

datatype message =
    SCHEMA string json_schema string
  | RECORD string "val dict"
  | STATE state

text \<open>
  The body of the \<^verbatim>\<open>while\<close> loop for the cursor \<open>next_date\<close>.  It gives the
  messages written, the module's schema as the body leaves it, and either the exception
  that leaves the body or the new values of \<^verbatim>\<open>state\<close>, \<^verbatim>\<open>next_date\<close> and
  \<^verbatim>\<open>prev_schema\<close>.  Logging writes nothing to the stream and is left out.
\<close>

definition iteration ::
  "env \<Rightarrow> string \<Rightarrow> json_schema \<Rightarrow> snapshot \<Rightarrow> string
     \<Rightarrow> message list \<times> json_schema \<times> (exn + state \<times> string \<times> snapshot)" where
  "iteration e access_key sch prev_schema next_date =
     (case snd (request e (base_url @ next_date) access_key) of
        Inl err \<Rightarrow> ([], sch, Inl err)
      | Inr resp \<Rightarrow>
          (case json_load (json_body resp) of
             (pl, h) \<Rightarrow>
               (case p_rates pl of
                  None \<Rightarrow> ([], sch, Inl (KeyError ''rates''))
                | Some a \<Rightarrow>
                    (let sch1 = sch\<lparr>properties := add_rates (map fst (h a)) (properties sch)\<rparr>;
                         out1 = (if schema_ne sch1 prev_schema
                                 then [SCHEMA ''exchange_rate'' sch1 ''date''] else [])
                     in (case p_date pl of
                           None \<Rightarrow> (out1, sch1, Inl (KeyError ''date''))
                         | Some dt \<Rightarrow>
                             (case (if dt = next_date
                                    then (case parse_response pl h of
                                            (h', res) \<Rightarrow>
                                              (case res of
                                                 Inl err \<Rightarrow> Inl err
                                               | Inr flattened \<Rightarrow>
                                                   Inr [RECORD ''exchange_rate'' (h' flattened)]))
                                    else Inr [])
                              of
                                Inl err \<Rightarrow> (out1, sch1, Inl err)
                              | Inr out2 \<Rightarrow>
                                  (case strptime next_date of
                                     None \<Rightarrow> (out1 @ out2, sch1, Inl ValueError)
                                   | Some d \<Rightarrow>
                                       (case add_day d of
                                          None \<Rightarrow> (out1 @ out2, sch1, Inl OverflowError)
                                        | Some d' \<Rightarrow>
                                            (out1 @ out2, sch1,
                                             Inr (\<lparr>start_date = next_date\<rparr>, strftime d',
                                                  Deepcopy sch1))))))))))"

lemma iteration_next_date:
  assumes "iteration e access_key sch prev_schema next_date = (out, sch', Inr (st, nd, pv))"
    and "strptime next_date = Some d"
  shows "\<exists>d'. add_day d = Some d' \<and> nd = strftime d'"
  using assms
  by (auto simp: iteration_def Let_def split: sum.splits prod.splits option.splits if_splits)

text \<open>
  The \<^verbatim>\<open>while\<close> loop of \<^verbatim>\<open>do_sync\<close>.  \<open>today\<close> is the date of
  \<^verbatim>\<open>datetime.utcnow()\<close>, taken as the same at every test of a run.  The result is the
  messages written, the schema, and the exception that left the \<^verbatim>\<open>try\<close> block or
  the \<^verbatim>\<open>state\<close> at the normal end of the loop.
\<close>

function do_sync_loop ::
  "env \<Rightarrow> string \<Rightarrow> ymd \<Rightarrow> json_schema \<Rightarrow> snapshot \<Rightarrow> state \<Rightarrow> string
     \<Rightarrow> message list \<times> json_schema \<times> (exn + state)" where
  "do_sync_loop e access_key today sch prev_schema st next_date =
     (case strptime next_date of
        None \<Rightarrow> ([], sch, Inl ValueError)
      | Some d \<Rightarrow>
          if date_le d today then
            (case iteration e access_key sch prev_schema next_date of
               (out, sch', res) \<Rightarrow>
                 (case res of
                    Inl err \<Rightarrow> (out, sch', Inl err)
                  | Inr (st', next_date', prev_schema') \<Rightarrow>
                      (case do_sync_loop e access_key today sch' prev_schema' st' next_date' of
                         (out', sch'', res') \<Rightarrow> (out @ out', sch'', res'))))
          else ([], sch, Inr st))"
  by pat_completeness auto
termination
proof (relation "measure (\<lambda>(e, access_key, today, sch, prev_schema, st, next_date).
          case strptime next_date of None \<Rightarrow> 0 | Some d \<Rightarrow> Suc (date_key today) - date_key d)")
  show "wf (measure (\<lambda>(e, access_key, today, sch, prev_schema, st, next_date).
          case strptime next_date of None \<Rightarrow> 0 | Some d \<Rightarrow> Suc (date_key today) - date_key d))"
    by simp
next
  fix e access_key today sch prev_schema st next_date d out y sch' res z st' w nd pv
  assume p: "strptime next_date = Some d" and le: "date_le d today"
    and x: "(out, y) = iteration e access_key sch prev_schema next_date"
    and y': "(sch', res) = y" and r: "res = Inr z"
    and z: "(st', w) = z" and w: "(nd, pv) = w"
  from x y' r z w
  have "iteration e access_key sch prev_schema next_date = (out, sch', Inr (st', nd, pv))"
    by simp
  from iteration_next_date [OF this p]
  obtain d' where d': "add_day d = Some d'" and nd: "nd = strftime d'" by blast
  have v: "valid_date d" using p by (rule strptime_valid)
  have v': "valid_date d'" using v d' by (rule add_day_valid)
  have "date_key d < date_key d'" using v d' by (rule add_day_key)
  moreover have "date_key d \<le> date_key today" using v le by (rule date_le_key)
  ultimately show "((e, access_key, today, sch', pv, st', nd),
           (e, access_key, today, sch, prev_schema, st, next_date))
        \<in> measure (\<lambda>(e, access_key, today, sch, prev_schema, st, next_date).
          case strptime next_date of None \<Rightarrow> 0 | Some d \<Rightarrow> Suc (date_key today) - date_key d)"
    using p nd strptime_strftime_cases [OF v'] by (cases "1000 \<le> year d'") simp_all
qed

declare do_sync_loop.simps [simp del]

text \<open>
  How a run of \<^verbatim>\<open>do_sync\<close> ends: it returns, it leaves through \<^verbatim>\<open>sys.exit\<close>, or an
  exception raised inside an \<^verbatim>\<open>except\<close> clause is caught by nobody.
\<close>

datatype outcome = Normal | Sys_exit int | Uncaught exn

text \<open>
  The three \<^verbatim>\<open>except\<close> clauses.  The clause for \<^verbatim>\<open>RequestException\<close> builds
  its message from \<^verbatim>\<open>e.request.url\<close>, \<^verbatim>\<open>e.response.status_code\<close> and
  \<^verbatim>\<open>e.response.text\<close> before it exits.
\<close>

fun handler :: "exn \<Rightarrow> outcome" where
  "handler (KeyError k) = Sys_exit (- 1)"
| "handler (RequestException None resp) = Uncaught AttributeError"
| "handler (RequestException (Some url) None) = Uncaught AttributeError"
| "handler (RequestException (Some url) (Some r)) = Sys_exit (- 1)"
| "handler err = Sys_exit (- 1)"

text \<open>
  The status of the process: 0 after a normal return, the argument of \<^verbatim>\<open>sys.exit\<close>
  as a byte, 1 after an exception that nobody caught.
\<close>

fun exit_code :: "outcome \<Rightarrow> int" where
  "exit_code Normal = 0"
| "exit_code (Sys_exit n) = n mod 256"
| "exit_code (Uncaught err) = 1"

record run =
  messages :: "message list"
  outcome :: outcome

text \<open>
  \<^verbatim>\<open>do_sync(start_date, access_key)\<close>, in a process that has just loaded the module,
  as \<^verbatim>\<open>main\<close> calls it.
\<close>

definition do_sync :: "env \<Rightarrow> ymd \<Rightarrow> string \<Rightarrow> string \<Rightarrow> run" where
  "do_sync e today start access_key =
     (case do_sync_loop e access_key today schema Empty_dict \<lparr>start_date = start\<rparr> start of
        (out, sch, res) \<Rightarrow>
          (case res of
             Inl err \<Rightarrow> \<lparr>messages = out, outcome = handler err\<rparr>
           | Inr st \<Rightarrow> \<lparr>messages = out @ [STATE st], outcome = Normal\<rparr>))"

section \<open>Reading the output stream\<close>

fun schema_messages :: "message list \<Rightarrow> json_schema list" where
  "schema_messages [] = []"
| "schema_messages (SCHEMA stream s key # ms) = s # schema_messages ms"
| "schema_messages (m # ms) = schema_messages ms"

fun record_messages :: "message list \<Rightarrow> val dict list" where
  "record_messages [] = []"
| "record_messages (RECORD stream r # ms) = r # record_messages ms"
| "record_messages (m # ms) = record_messages ms"

fun state_messages :: "message list \<Rightarrow> state list" where
  "state_messages [] = []"
| "state_messages (STATE s # ms) = s # state_messages ms"
| "state_messages (m # ms) = state_messages ms"

section \<open>The iterations of a run\<close>

text \<open>
  The variables of the loop: the module's schema, \<^verbatim>\<open>prev_schema\<close>, \<^verbatim>\<open>state\<close> and
  \<^verbatim>\<open>next_date\<close>.  \<open>iterates e k today s n out s'\<close>: started with the variables
  \<open>s\<close>, the loop comes to its test with the variables \<open>s'\<close>, after \<open>n\<close> complete
  iterations that wrote \<open>out\<close>.
\<close>

type_synonym loop_vars = "json_schema \<times> snapshot \<times> state \<times> string"

inductive iterates ::
  "env \<Rightarrow> string \<Rightarrow> ymd \<Rightarrow> loop_vars \<Rightarrow> nat \<Rightarrow> message list \<Rightarrow> loop_vars \<Rightarrow> bool" where
  start: "iterates e k today s 0 [] s"
| step: "iterates e k today s n out (sch, prev, st, nd) \<Longrightarrow>
         strptime nd = Some d \<Longrightarrow> date_le d today \<Longrightarrow>
         iteration e k sch prev nd = (out', sch', Inr (st', nd', prev')) \<Longrightarrow>
         iterates e k today s (Suc n) (out @ out') (sch', prev', st', nd')"

text \<open>
  Every run of the loop is a number of complete iterations and then one of three ends:
  the cursor does not parse, the cursor is past today, or an iteration raises.
\<close>

definition loop_end ::
  "env \<Rightarrow> string \<Rightarrow> ymd \<Rightarrow> message list \<Rightarrow> loop_vars
     \<Rightarrow> message list \<times> json_schema \<times> (exn + state) \<Rightarrow> bool" where
  "loop_end e k today out s res =
     (case s of (sch, prev, st, nd) \<Rightarrow>
        (case strptime nd of
           None \<Rightarrow> res = (out, sch, Inl ValueError)
         | Some d \<Rightarrow>
             if date_le d today
             then (case iteration e k sch prev nd of
                     (out', sch', r) \<Rightarrow>
                       (case r of Inl err \<Rightarrow> res = (out @ out', sch', Inl err) | Inr v \<Rightarrow> False))
             else res = (out, sch, Inr st)))"

text \<open>The schema once the keys of a day's rates have been added, and the record of a day.\<close>

abbreviation evolved :: "json_schema \<Rightarrow> real dict \<Rightarrow> json_schema" where
  "evolved sch rs \<equiv> sch\<lparr>properties := add_rates (map fst rs) (properties sch)\<rparr>"

abbreviation schema_out :: "json_schema \<Rightarrow> snapshot \<Rightarrow> message list" where
  "schema_out sch1 prev \<equiv>
     (if schema_ne sch1 prev then [SCHEMA ''exchange_rate'' sch1 ''date''] else [])"

abbreviation flat_record :: "string \<Rightarrow> ymd \<Rightarrow> real dict \<Rightarrow> val dict" where
  "flat_record b d rs \<equiv>
     AList.update ''date'' (Str (strftime_utc d))
       (AList.update ''base'' (Str b)
          (AList.update b (Num 1) (map (\<lambda>(k, x). (k, Num x)) rs)))"

section \<open>Payloads and servers of concrete runs\<close>

text \<open>
  A payload for 2024-01-01 whose rates are \<^verbatim>\<open>{"EUR": 0.9}\<close>, with the given base, and
  the store that holds its rates.
\<close>

definition eur_payload :: "string \<Rightarrow> payload" where
  "eur_payload b = \<lparr>p_base = Some b, p_date = Some ''2024-01-01'', p_rates = Some 0\<rparr>"

definition eur_heap :: heap where
  "eur_heap = (\<lambda>a. []) (0 := [(''EUR'', Num (9 / 10))])"

text \<open>
  The body \<^verbatim>\<open>{"base": "USD", "date": dt, "rates": {"EUR": 0.9}}\<close>, and the day that
  a URL of the tap asks for.
\<close>

definition usd_body :: "string \<Rightarrow> body" where
  "usd_body dt = \<lparr>j_base = Some ''USD'', j_date = Some dt, j_rates = Some [(''EUR'', 9 / 10)]\<rparr>"

definition requested_day :: "string \<Rightarrow> string" where
  "requested_day url = drop (length base_url) url"

text \<open>A server that answers every request with status 200 and the rates of the day asked for.\<close>

definition api_up :: env where
  "api_up =
     \<lparr>http_get = (\<lambda>url apikey n.
          Response \<lparr>status_code = 200, body_text = [], json_body = usd_body (requested_day url)\<rparr>),
      random = (\<lambda>n. 1 / 2)\<rparr>"

text \<open>A server that answers every request with the given status.\<close>

definition api_status :: "nat \<Rightarrow> env" where
  "api_status s =
     \<lparr>http_get = (\<lambda>url apikey n.
          Response \<lparr>status_code = s, body_text = ''error'', json_body = usd_body []\<rparr>),
      random = (\<lambda>n. 1 / 2)\<rparr>"

text \<open>A server that cannot be reached: every attempt fails below HTTP.\<close>

definition api_down :: env where
  "api_down = \<lparr>http_get = (\<lambda>url apikey n. No_response), random = (\<lambda>n. 1 / 2)\<rparr>"

text \<open>
  A server that answers the given day with the given status and every other day like
  \<open>api_up\<close>.
\<close>

definition api_failing_on :: "string \<Rightarrow> nat \<Rightarrow> env" where
  "api_failing_on bad s =
     \<lparr>http_get = (\<lambda>url apikey n.
          Response \<lparr>status_code = (if requested_day url = bad then s else 200),
                    body_text = [], json_body = usd_body (requested_day url)\<rparr>),
      random = (\<lambda>n. 1 / 2)\<rparr>"

text \<open>A server like \<open>api_up\<close> whose answers all carry the date 2024-01-01.\<close>

definition api_stale :: env where
  "api_stale =
     \<lparr>http_get = (\<lambda>url apikey n.
          Response \<lparr>status_code = 200, body_text = [], json_body = usd_body ''2024-01-01''\<rparr>),
      random = (\<lambda>n. 1 / 2)\<rparr>"

text \<open>
  A server like \<open>api_up\<close> that lists the pound from the second day on.
\<close>

definition api_growing :: env where
  "api_growing =
     \<lparr>http_get = (\<lambda>url apikey n.
          Response \<lparr>status_code = 200, body_text = [],
                    json_body = \<lparr>j_base = Some ''USD'', j_date = Some (requested_day url),
                                 j_rates = Some (if requested_day url = ''2024-01-01''
                                                 then [(''EUR'', 9 / 10)]
                                                 else [(''EUR'', 9 / 10), (''GBP'', 4 / 5)])\<rparr>\<rparr>),
      random = (\<lambda>n. 1 / 2)\<rparr>"

text \<open>
  A server like \<open>api_up\<close> whose answer for the given day is the given body.
\<close>

definition api_with_body :: "string \<Rightarrow> body \<Rightarrow> env" where
  "api_with_body bad b =
     \<lparr>http_get = (\<lambda>url apikey n.
          Response \<lparr>status_code = 200, body_text = [],
                    json_body = (if requested_day url = bad then b
                                 else usd_body (requested_day url))\<rparr>),
      random = (\<lambda>n. 1 / 2)\<rparr>"

text \<open>The answers of day two without \<^verbatim>\<open>date\<close>, and of day one without \<^verbatim>\<open>rates\<close>.\<close>

definition body_without_date :: body where
  "body_without_date =
     \<lparr>j_base = Some ''USD'', j_date = None, j_rates = Some [(''EUR'', 9 / 10)]\<rparr>"

definition body_without_rates :: body where
  "body_without_rates = \<lparr>j_base = Some ''USD'', j_date = Some ''2024-01-01'', j_rates = None\<rparr>"

text \<open>An answer without \<^verbatim>\<open>base\<close>, dated 2024-01-01.\<close>

definition body_without_base :: body where
  "body_without_base =
     \<lparr>j_base = None, j_date = Some ''2024-01-01'', j_rates = Some [(''EUR'', 9 / 10)]\<rparr>"

text \<open>
  The schema once the euro is a field, and the record of a day of \<open>api_up\<close> with the
  given timestamp.
\<close>

definition schema_eur :: json_schema where
  "schema_eur = \<lparr>stype = ''object'',
                 properties = [(''date'', String_date_time), (''base'', String_plain),
                               (''EUR'', Null_or_number)]\<rparr>"

definition record_usd :: "string \<Rightarrow> message" where
  "record_usd ts =
     RECORD ''exchange_rate''
       [(''EUR'', Num (9 / 10)), (''USD'', Num 1), (''base'', Str ''USD''), (''date'', Str ts)]"

text \<open>Unfolding the date functions on concrete dates.\<close>

lemmas date_eval = strptime_def parse_month_def parse_day_def is_digit_def digit_val_def
  valid_date_def days_in_month_def is_leap_def strftime_def strftime_utc_def year_digits_def
  pad2_def pad4_def
  digit_char_def add_day_def date_le_def

text \<open>Unfolding the tap on a concrete run.\<close>

lemmas tap_eval = do_sync_def do_sync_loop.simps on_exception.simps iteration_def request_def
  request_body_def raise_for_status_def json_load_def parse_response_def schema_def base_url_def
  dict_eq_def usd_body_def requested_day_def Let_def

section \<open>Unfolding the loop\<close>

lemma schema_messages_append [simp]:
  "schema_messages (xs @ ys) = schema_messages xs @ schema_messages ys"
  by (induction xs rule: schema_messages.induct) simp_all

lemma record_messages_append [simp]:
  "record_messages (xs @ ys) = record_messages xs @ record_messages ys"
  by (induction xs rule: record_messages.induct) simp_all

lemma state_messages_append [simp]:
  "state_messages (xs @ ys) = state_messages xs @ state_messages ys"
  by (induction xs rule: state_messages.induct) simp_all

lemma do_sync_loop_unfold:
  assumes "strptime nd = Some d" "date_le d today"
    and "iteration e k sch prev nd = (out', sch', Inr (st', nd', prev'))"
  shows "do_sync_loop e k today sch prev st nd =
           (case do_sync_loop e k today sch' prev' st' nd' of
              (out'', sch'', res) \<Rightarrow> (out' @ out'', sch'', res))"
  using assms by (subst do_sync_loop.simps) simp

lemma do_sync_loop_stop:
  assumes "strptime nd = Some d" "date_le d today"
    and "iteration e k sch prev nd = (out', sch', Inl err)"
  shows "do_sync_loop e k today sch prev st nd = (out', sch', Inl err)"
  using assms by (subst do_sync_loop.simps) simp

lemma do_sync_loop_done:
  assumes "strptime nd = Some d" "\<not> date_le d today"
  shows "do_sync_loop e k today sch prev st nd = ([], sch, Inr st)"
  using assms by (subst do_sync_loop.simps) simp

text \<open>The run from the start is the messages written so far, then the run from there.\<close>

lemma iterates_do_sync_loop:
  assumes "iterates e k today s n out s'"
  shows "do_sync_loop e k today (fst s) (fst (snd s)) (fst (snd (snd s))) (snd (snd (snd s))) =
           (case do_sync_loop e k today (fst s') (fst (snd s')) (fst (snd (snd s')))
                   (snd (snd (snd s'))) of
              (out'', sch'', res) \<Rightarrow> (out @ out'', sch'', res))"
  using assms
proof (induction rule: iterates.induct)
  case (start e k today s)
  then show ?case by (simp split: prod.splits)
next
  case (step e k today s n out sch prev st nd d out' sch' st' nd' prev')
  from do_sync_loop_unfold [OF step.hyps(2,3,4), of st] step.IH
  show ?case by (simp split: prod.splits)
qed

section \<open>Dictionaries\<close>

lemma dict_eq_iff: "dict_eq a b \<longleftrightarrow> map_of a = map_of b"
proof
  assume eq: "dict_eq a b"
  show "map_of a = map_of b"
  proof
    fix k
    show "map_of a k = map_of b k"
    proof (cases "k \<in> set (map fst a @ map fst b)")
      case True
      with eq show ?thesis by (simp add: dict_eq_def list_all_iff)
    next
      case False
      then have "map_of a k = None" "map_of b k = None"
        by (simp_all add: map_of_eq_None_iff)
      then show ?thesis by simp
    qed
  qed
next
  assume "map_of a = map_of b"
  then show "dict_eq a b" by (simp add: dict_eq_def list_all_iff)
qed

lemma update_absent: "map_of ps k = None \<Longrightarrow> AList.update k v ps = ps @ [(k, v)]"
  by (induction ps) (auto split: if_splits)

lemma map_of_add_rates:
  "map_of (add_rates ks ps) k =
     (case map_of ps k of
        Some v \<Rightarrow> Some v
      | None \<Rightarrow> if k \<in> set ks then Some Null_or_number else None)"
proof (induction ks arbitrary: ps)
  case Nil
  then show ?case by (simp split: option.splits)
next
  case (Cons a ks)
  show ?case
    by (simp add: Cons.IH update_conv' split: option.splits)
qed

lemma add_rates_appends:
  "\<exists>ns. add_rates ks ps = ps @ map (\<lambda>k. (k, Null_or_number)) ns \<and> distinct ns
        \<and> set ns = {k \<in> set ks. map_of ps k = None}"
proof (induction ks arbitrary: ps)
  case Nil
  show ?case by (rule exI [of _ "[]"]) simp
next
  case (Cons a ks)
  show ?case
  proof (cases "map_of ps a = None")
    case False
    have "add_rates (a # ks) ps = add_rates ks ps" using False by auto
    moreover have "{k \<in> set (a # ks). map_of ps k = None} = {k \<in> set ks. map_of ps k = None}"
      using False by auto
    ultimately show ?thesis using Cons.IH [of ps] by simp
  next
    case True
    let ?ps = "ps @ [(a, Null_or_number)]"
    from Cons.IH [of ?ps] obtain ns where
      ns: "add_rates ks ?ps = ?ps @ map (\<lambda>k. (k, Null_or_number)) ns" "distinct ns"
        "set ns = {k \<in> set ks. map_of ?ps k = None}"
      by blast
    have m: "map_of ?ps k = None \<longleftrightarrow> map_of ps k = None \<and> k \<noteq> a" for k
      by (auto simp: map_add_def split: option.splits)
    have n3: "set ns = {k \<in> set ks. map_of ps k = None \<and> k \<noteq> a}"
      using ns(3) by (simp only: m)
    have a: "a \<notin> set ns" using n3 by simp
    have s: "set (a # ns) = {k \<in> set (a # ks). map_of ps k = None}"
      using n3 True by auto
    have "add_rates (a # ks) ps = add_rates ks ?ps" using True by (simp add: update_absent)
    then have "add_rates (a # ks) ps = ps @ map (\<lambda>k. (k, Null_or_number)) (a # ns)"
      using ns(1) by simp
    moreover have "distinct (a # ns)" using a ns(2) by simp
    ultimately show ?thesis using s by blast
  qed
qed

section \<open>One call of \<open>parse_response\<close>\<close>

lemma parse_response_ok:
  assumes "p_rates r = Some a" "p_base r = Some b" "p_date r = Some dt" "strptime dt = Some d"
  shows "parse_response r h =
           (h(a := AList.update ''date'' (Str (strftime_utc d))
                     (AList.update ''base'' (Str b) (AList.update b (Num 1) (h a)))),
            Inr a)"
  using assms by (simp add: parse_response_def Let_def)

section \<open>One iteration of the loop\<close>

lemma keys_json: "fst \<circ> (\<lambda>(k, x). (k, Num x)) = fst"
  by (auto simp: fun_eq_iff)

lemma iteration_fetch_error:
  assumes "snd (request e (base_url @ nd) k) = Inl err"
  shows "iteration e k sch prev nd = ([], sch, Inl err)"
  using assms by (simp add: iteration_def)

lemma iteration_no_rates:
  assumes "snd (request e (base_url @ nd) k) = Inr resp" "j_rates (json_body resp) = None"
  shows "iteration e k sch prev nd = ([], sch, Inl (KeyError ''rates''))"
  using assms by (simp add: iteration_def json_load_def)

lemma iteration_no_date:
  assumes "snd (request e (base_url @ nd) k) = Inr resp" "j_rates (json_body resp) = Some rs"
    and "j_date (json_body resp) = None"
  shows "iteration e k sch prev nd =
           (schema_out (evolved sch rs) prev, evolved sch rs, Inl (KeyError ''date''))"
  using assms by (simp add: iteration_def json_load_def keys_json Let_def)

lemma iteration_no_base:
  assumes "snd (request e (base_url @ nd) k) = Inr resp" "j_rates (json_body resp) = Some rs"
    and "j_date (json_body resp) = Some nd" "j_base (json_body resp) = None"
  shows "iteration e k sch prev nd =
           (schema_out (evolved sch rs) prev, evolved sch rs, Inl (KeyError ''base''))"
  using assms by (simp add: iteration_def json_load_def keys_json Let_def parse_response_def)

lemma iteration_mismatch:
  assumes "snd (request e (base_url @ nd) k) = Inr resp" "j_rates (json_body resp) = Some rs"
    and "j_date (json_body resp) = Some dt" "dt \<noteq> nd"
    and "strptime nd = Some d" "add_day d = Some d'"
  shows "iteration e k sch prev nd =
           (schema_out (evolved sch rs) prev, evolved sch rs,
            Inr (\<lparr>start_date = nd\<rparr>, strftime d', Deepcopy (evolved sch rs)))"
  using assms by (simp add: iteration_def json_load_def keys_json Let_def)

lemma iteration_match:
  assumes "snd (request e (base_url @ nd) k) = Inr resp" "j_rates (json_body resp) = Some rs"
    and "j_date (json_body resp) = Some nd" "j_base (json_body resp) = Some b"
    and "strptime nd = Some d" "add_day d = Some d'"
  shows "iteration e k sch prev nd =
           (schema_out (evolved sch rs) prev @ [RECORD ''exchange_rate'' (flat_record b d rs)],
            evolved sch rs,
            Inr (\<lparr>start_date = nd\<rparr>, strftime d', Deepcopy (evolved sch rs)))"
  using assms
  by (simp add: iteration_def json_load_def keys_json Let_def parse_response_def)

text \<open>Whatever happens in an iteration, the schema it leaves is the old one with keys added.\<close>

lemma iteration_schema:
  "\<exists>ks. fst (snd (iteration e k sch prev nd))
          = sch\<lparr>properties := add_rates ks (properties sch)\<rparr>"
proof (cases "snd (request e (base_url @ nd) k)")
  case (Inl err)
  have "fst (snd (iteration e k sch prev nd)) = sch\<lparr>properties := add_rates [] (properties sch)\<rparr>"
    using Inl by (simp add: iteration_def)
  then show ?thesis by blast
next
  case (Inr resp)
  show ?thesis
  proof (cases "j_rates (json_body resp)")
    case None
    have "fst (snd (iteration e k sch prev nd))
            = sch\<lparr>properties := add_rates [] (properties sch)\<rparr>"
      using Inr None by (simp add: iteration_no_rates)
    then show ?thesis by blast
  next
    case (Some rs)
    have "fst (snd (iteration e k sch prev nd)) = evolved sch rs"
      using Inr Some
      by (simp add: iteration_def json_load_def keys_json Let_def
          split: option.splits sum.splits prod.splits)
    then show ?thesis by blast
  qed
qed

lemma iteration_no_state: "state_messages (fst (iteration e k sch prev nd)) = []"
  by (simp add: iteration_def json_load_def Let_def
      split: option.splits sum.splits prod.splits)

lemma iteration_state:
  assumes "iteration e k sch prev nd = (out, sch', Inr (st, nd', pv))"
  shows "start_date st = nd \<and> pv = Deepcopy sch' \<and>
         (\<exists>d d'. strptime nd = Some d \<and> add_day d = Some d' \<and> nd' = strftime d'
            \<and> valid_date d')"
proof -
  from assms have a: "start_date st = nd" "pv = Deepcopy sch'"
    by (auto simp: iteration_def Let_def split: sum.splits prod.splits option.splits if_splits)
  from assms obtain d where d: "strptime nd = Some d"
    by (auto simp: iteration_def Let_def split: sum.splits prod.splits option.splits if_splits)
  from iteration_next_date [OF assms d] obtain d' where
    d': "add_day d = Some d'" "nd' = strftime d'" by blast
  have "valid_date d'" using strptime_valid [OF d] d'(1) by (rule add_day_valid)
  with a d d' show ?thesis by blast
qed

lemma iterates_first:
  assumes "iterates e k today s1 n out s'"
    and "s1 = (sch1, prev1, st1, nd1)"
    and "strptime nd = Some d" "date_le d today"
    and "iteration e k sch prev nd = (out1, sch1, Inr (st1, nd1, prev1))"
  shows "iterates e k today (sch, prev, st, nd) (Suc n) (out1 @ out) s'"
  using assms
proof (induction rule: iterates.induct)
  case (start e k today s)
  have "iterates e k today (sch, prev, st, nd) (Suc 0) ([] @ out1) (sch1, prev1, st1, nd1)"
    using start by (intro iterates.step [OF iterates.start])
  with start show ?case by simp
next
  case (step e k today s n out sch' prev' st' nd' d' out' sch'' st'' nd'' prev'')
  have "iterates e k today (sch, prev, st, nd) (Suc n) (out1 @ out) (sch', prev', st', nd')"
    using step by simp
  from iterates.step [OF this step.hyps(2,3,4)] show ?case by simp
qed

lemma do_sync_loop_run:
  "\<exists>n out s'. iterates e k today (sch, prev, st, nd) n out s'
      \<and> loop_end e k today out s' (do_sync_loop e k today sch prev st nd)"
proof (induction e k today sch prev st nd rule: do_sync_loop.induct)
  case (1 e k today sch prev st nd)
  have here: "loop_end e k today [] (sch, prev, st, nd) r \<Longrightarrow>
      do_sync_loop e k today sch prev st nd = r \<Longrightarrow> ?case" for r
    using iterates.start [of e k today "(sch, prev, st, nd)"] by blast
  show ?case
  proof (cases "strptime nd")
    case None
    then have "do_sync_loop e k today sch prev st nd = ([], sch, Inl ValueError)"
      by (subst do_sync_loop.simps) simp
    moreover have "loop_end e k today [] (sch, prev, st, nd) ([], sch, Inl ValueError)"
      using None by (simp add: loop_end_def)
    ultimately show ?thesis using here by blast
  next
    case (Some d)
    show ?thesis
    proof (cases "date_le d today")
      case False
      have "loop_end e k today [] (sch, prev, st, nd) ([], sch, Inr st)"
        using Some False by (simp add: loop_end_def)
      with do_sync_loop_done [OF Some False] here show ?thesis by blast
    next
      case True
      obtain out sch' res where it: "iteration e k sch prev nd = (out, sch', res)"
        by (cases "iteration e k sch prev nd") auto
      show ?thesis
      proof (cases res)
        case (Inl err)
        have "loop_end e k today [] (sch, prev, st, nd) (out, sch', Inl err)"
          using Some True it Inl by (simp add: loop_end_def)
        moreover have "do_sync_loop e k today sch prev st nd = (out, sch', Inl err)"
          using Some True it Inl by (simp add: do_sync_loop_stop)
        ultimately show ?thesis using here by blast
      next
        case (Inr v)
        obtain st' nd' pv where v: "v = (st', nd', pv)" by (cases v) auto
        from "1.IH" [OF Some True it [symmetric] refl Inr v [symmetric] refl]
        obtain n out2 s' where
          r: "iterates e k today (sch', pv, st', nd') n out2 s'"
            "loop_end e k today out2 s' (do_sync_loop e k today sch' pv st' nd')"
          by blast
        have it': "iteration e k sch prev nd = (out, sch', Inr (st', nd', pv))"
          using it Inr v by simp
        have i: "iterates e k today (sch, prev, st, nd) (Suc n) (out @ out2) s'"
          using iterates_first [OF r(1) refl Some True it'] .
        obtain o3 s3 r3 where l: "do_sync_loop e k today sch' pv st' nd' = (o3, s3, r3)"
          by (cases "do_sync_loop e k today sch' pv st' nd'") auto
        have u: "do_sync_loop e k today sch prev st nd = (out @ o3, s3, r3)"
          using do_sync_loop_unfold [OF Some True it', of st] l by simp
        have "loop_end e k today (out @ out2) s' (out @ o3, s3, r3)"
          using r(2) l
          by (auto simp: loop_end_def split: prod.splits option.splits if_splits sum.splits)
        with i show ?thesis unfolding u by blast
      qed
    qed
  qed
qed

section \<open>Normalisation of a payload\<close>

lemma currency_code_not_reserved:
  assumes "currency_code b"
  shows "b \<noteq> ''base''" "b \<noteq> ''date''"
  using assms by (auto simp: currency_code_def)

text \<open>
  The date of a record is printed by \<^verbatim>\<open>time.strftime\<close>; from the year 1000 on it
  is the four digits of the year, the two of the month and the two of the day.
\<close>

lemma strftime_four_digit_year:
  "1000 \<le> year d \<Longrightarrow> strftime d = pad4 (year d) @ ''-'' @ pad2 (month d) @ ''-'' @ pad2 (day d)"
  by (simp add: strftime_def year_digits_def)

text \<open>
  C7: for any payload with a rates mapping, a base that is a currency code and a date in
  the form \<^verbatim>\<open>%Y-%m-%d\<close>, \<open>parse_response\<close> returns a record that maps the base
  code to 1.0, \<^verbatim>\<open>"base"\<close> to the base code and \<^verbatim>\<open>"date"\<close> to the payload's
  date followed by \<^verbatim>\<open>T00:00:00Z\<close>, the midnight of that day in UTC, and that keeps
  every other rate.  The date is printed as \<^verbatim>\<open>strftime\<close> prints it: with the
  year in four digits from the year 1000 on.
\<close>

theorem parse_response_base_normalization:
  assumes "p_rates r = Some a" "p_base r = Some b" "currency_code b"
    and "p_date r = Some dt" "strptime dt = Some d"
  shows "snd (parse_response r h) = Inr a
    \<and> map_of (fst (parse_response r h) a) b = Some (Num 1)
    \<and> map_of (fst (parse_response r h) a) ''base'' = Some (Str b)
    \<and> map_of (fst (parse_response r h) a) ''date'' = Some (Str (strftime d @ ''T00:00:00Z''))
    \<and> (1000 \<le> year d \<longrightarrow>
          map_of (fst (parse_response r h) a) ''date''
            = Some (Str (pad4 (year d) @ ''-'' @ pad2 (month d) @ ''-'' @ pad2 (day d)
                           @ ''T00:00:00Z'')))
    \<and> (\<forall>c. c \<noteq> b \<and> c \<noteq> ''base'' \<and> c \<noteq> ''date''
          \<longrightarrow> map_of (fst (parse_response r h) a) c = map_of (h a) c)"
proof -
  note ok = parse_response_ok [OF assms(1,2,4,5), of h]
  note nr = currency_code_not_reserved [OF assms(3)]
  have 1: "snd (parse_response r h) = Inr a" by (simp add: ok)
  have 2: "map_of (fst (parse_response r h) a) b = Some (Num 1)"
    using nr by (simp add: ok update_conv')
  have 3: "map_of (fst (parse_response r h) a) ''base'' = Some (Str b)"
    by (simp add: ok update_conv')
  have 4: "map_of (fst (parse_response r h) a) ''date'' = Some (Str (strftime d @ ''T00:00:00Z''))"
    by (simp add: ok update_conv' strftime_utc_def)
  have 5: "map_of (fst (parse_response r h) a) ''date''
            = Some (Str (pad4 (year d) @ ''-'' @ pad2 (month d) @ ''-'' @ pad2 (day d)
                           @ ''T00:00:00Z''))"
    if "1000 \<le> year d"
    unfolding 4 strftime_four_digit_year [OF that] by simp
  have 6: "map_of (fst (parse_response r h) a) c = map_of (h a) c"
    if "c \<noteq> b \<and> c \<noteq> ''base'' \<and> c \<noteq> ''date''" for c
    using that by (simp add: ok update_conv')
  from 1 2 3 4 5 6 show ?thesis by blast
qed

theorem parse_response_base_normalization_witness:
  "currency_code ''USD''
    \<and> snd (parse_response (eur_payload ''USD'') eur_heap) = Inr 0
    \<and> map_of (fst (parse_response (eur_payload ''USD'') eur_heap) 0) ''USD'' = Some (Num 1)
    \<and> map_of (fst (parse_response (eur_payload ''USD'') eur_heap) 0) ''base''
        = Some (Str ''USD'')
    \<and> map_of (fst (parse_response (eur_payload ''USD'') eur_heap) 0) ''date''
        = Some (Str ''2024-01-01T00:00:00Z'')
    \<and> map_of (fst (parse_response (eur_payload ''USD'') eur_heap) 0) ''EUR''
        = Some (Num (9 / 10))"
proof -
  have 1: "p_rates (eur_payload ''USD'') = Some 0" by (simp add: eur_payload_def)
  have 2: "p_base (eur_payload ''USD'') = Some ''USD''" by (simp add: eur_payload_def)
  have 3: "currency_code ''USD''" by (simp add: currency_code_def is_upper_def)
  have 4: "p_date (eur_payload ''USD'') = Some ''2024-01-01''" by (simp add: eur_payload_def)
  have 5: "strptime ''2024-01-01'' = Some (Ymd 2024 1 1)" by (simp add: date_eval)
  have 6: "strftime (Ymd 2024 1 1) = ''2024-01-01''" by (simp add: date_eval)
  have 7: "map_of (eur_heap 0) ''EUR'' = Some (Num (9 / 10))" by (simp add: eur_heap_def)
  from parse_response_base_normalization [OF 1 2 3 4 5, of eur_heap] 3 6 7
  show ?thesis by simp
qed

section \<open>The frame of \<open>parse_response\<close>\<close>

text \<open>
  C10: for a payload with a rates mapping, a base that is a currency code and a date in
  the form \<^verbatim>\<open>%Y-%m-%d\<close>, \<open>parse_response\<close> returns the reference that its
  argument holds under \<^verbatim>\<open>"rates"\<close> and changes that object in place, and no other
  object.  After the call the object holds the base code with the value 1.0 and the
  string-valued keys \<^verbatim>\<open>"base"\<close> and \<^verbatim>\<open>"date"\<close>, next to the rates it had.  A
  rates object that held only numbers, as a decoded one does, is not left unchanged.
\<close>

theorem parse_response_mutates_rates:
  assumes "p_rates r = Some a" "p_base r = Some b" "currency_code b"
    and "p_date r = Some dt" "strptime dt = Some d"
    and "list_all (\<lambda>v. case v of Num x \<Rightarrow> True | Str s \<Rightarrow> False) (map snd (h a))"
  shows "Some (projr (snd (parse_response r h))) = p_rates r
    \<and> snd (parse_response r h) = Inr a
    \<and> (\<forall>a'. a' \<noteq> a \<longrightarrow> fst (parse_response r h) a' = h a')
    \<and> map_of (fst (parse_response r h) a) b = Some (Num 1)
    \<and> map_of (fst (parse_response r h) a) ''base'' = Some (Str b)
    \<and> map_of (fst (parse_response r h) a) ''date'' = Some (Str (strftime d @ ''T00:00:00Z''))
    \<and> (\<forall>c. c \<noteq> b \<and> c \<noteq> ''base'' \<and> c \<noteq> ''date''
          \<longrightarrow> map_of (fst (parse_response r h) a) c = map_of (h a) c)
    \<and> fst (parse_response r h) a \<noteq> h a"
proof -
  note ok = parse_response_ok [OF assms(1,2,4,5), of h]
  note nr = currency_code_not_reserved [OF assms(3)]
  have old: "map_of (h a) ''base'' \<noteq> Some (Str b)"
  proof
    assume "map_of (h a) ''base'' = Some (Str b)"
    then have "Str b \<in> set (map snd (h a))"
      by (metis map_of_SomeD image_eqI set_map snd_conv)
    with assms(6) show False by (auto simp: list_all_iff)
  qed
  have new: "map_of (fst (parse_response r h) a) ''base'' = Some (Str b)"
    by (simp add: ok update_conv')
  from old new have ne: "fst (parse_response r h) a \<noteq> h a" by metis
  have one: "map_of (fst (parse_response r h) a) b = Some (Num 1)"
    using nr by (simp add: ok update_conv')
  have rest: "map_of (fst (parse_response r h) a) c = map_of (h a) c"
    if "c \<noteq> b \<and> c \<noteq> ''base'' \<and> c \<noteq> ''date''" for c
    using that by (simp add: ok update_conv')
  have frame: "Some (projr (snd (parse_response r h))) = p_rates r
    \<and> snd (parse_response r h) = Inr a
    \<and> (\<forall>a'. a' \<noteq> a \<longrightarrow> fst (parse_response r h) a' = h a')
    \<and> map_of (fst (parse_response r h) a) ''date'' = Some (Str (strftime d @ ''T00:00:00Z''))"
    using assms(1) by (simp add: ok update_conv' strftime_utc_def)
  from frame one new rest ne show ?thesis by blast
qed

theorem parse_response_mutates_rates_witness:
  "currency_code ''USD''
    \<and> snd (parse_response (eur_payload ''USD'') eur_heap) = Inr 0
    \<and> fst (parse_response (eur_payload ''USD'') eur_heap) 0 \<noteq> eur_heap 0
    \<and> fst (parse_response (eur_payload ''USD'') eur_heap) 1 = eur_heap 1
    \<and> map_of (fst (parse_response (eur_payload ''USD'') eur_heap) 0) ''USD'' = Some (Num 1)
    \<and> map_of (fst (parse_response (eur_payload ''USD'') eur_heap) 0) ''base''
        = Some (Str ''USD'')
    \<and> map_of (fst (parse_response (eur_payload ''USD'') eur_heap) 0) ''date''
        = Some (Str ''2024-01-01T00:00:00Z'')"
proof -
  have 1: "p_rates (eur_payload ''USD'') = Some 0" by (simp add: eur_payload_def)
  have 2: "p_base (eur_payload ''USD'') = Some ''USD''" by (simp add: eur_payload_def)
  have 3: "currency_code ''USD''" by (simp add: currency_code_def is_upper_def)
  have 4: "p_date (eur_payload ''USD'') = Some ''2024-01-01''" by (simp add: eur_payload_def)
  have 5: "strptime ''2024-01-01'' = Some (Ymd 2024 1 1)" by (simp add: date_eval)
  have 6: "list_all (\<lambda>v. case v of Num x \<Rightarrow> True | Str s \<Rightarrow> False) (map snd (eur_heap 0))"
    by (simp add: eur_heap_def)
  have 7: "strftime (Ymd 2024 1 1) = ''2024-01-01''" by (simp add: date_eval)
  from parse_response_mutates_rates
    [of "eur_payload ''USD''" 0 "''USD''" "''2024-01-01''" "Ymd 2024 1 1" eur_heap,
      OF 1 2 3 4 5 6] 3 7
  show ?thesis by simp
qed

section \<open>The fetch client: retry and give up\<close>

lemma on_exception_returns:
  assumes "target (tries + 1) = Inr ret"
  shows "on_exception interval max_tries gu jitter target tries = ([], Inr ret)"
  using assms by (subst on_exception.simps) simp

lemma on_exception_giveup_raises:
  assumes "target (tries + 1) = Inl err" "is_RequestException err" "gu err = Inl err'"
  shows "on_exception interval max_tries gu jitter target tries = ([], Inl err')"
  using assms by (subst on_exception.simps) simp

lemma on_exception_gives_up:
  assumes "target (tries + 1) = Inl err" "is_RequestException err" "gu err = Inr True"
  shows "on_exception interval max_tries gu jitter target tries = ([], Inl err)"
  using assms by (subst on_exception.simps) simp

lemma on_exception_exhausted:
  assumes "target (tries + 1) = Inl err" "is_RequestException err" "gu err = Inr g"
    and "max_tries \<le> tries + 1"
  shows "on_exception interval max_tries gu jitter target tries = ([], Inl err)"
  using assms by (subst on_exception.simps) simp

lemma on_exception_retries:
  assumes "target (tries + 1) = Inl err" "is_RequestException err" "gu err = Inr False"
    and "tries + 1 < max_tries"
  shows "on_exception interval max_tries gu jitter target tries =
           ((interval + jitter (tries + 1))
              # fst (on_exception interval max_tries gu jitter target (tries + 1)),
            snd (on_exception interval max_tries gu jitter target (tries + 1)))"
  using assms by (subst on_exception.simps) (simp split: prod.splits)

lemma on_exception_all_transient:
  assumes "\<And>n. target n = Inl (err n)" "\<And>n. is_RequestException (err n)"
    and "\<And>n. gu (err n) = Inr False"
  shows "tries < max_tries \<Longrightarrow>
         on_exception interval max_tries gu jitter target tries =
           (map (\<lambda>n. interval + jitter n) [tries + 1 ..< max_tries], Inl (err max_tries))"
proof (induction "max_tries - tries" arbitrary: tries)
  case 0
  then show ?case by simp
next
  case (Suc k)
  show ?case
  proof (cases "tries + 1 = max_tries")
    case True
    have "on_exception interval max_tries gu jitter target tries
            = ([], Inl (err (tries + 1)))"
      using on_exception_exhausted
          [of target tries "err (tries + 1)" gu False max_tries interval jitter] assms True
      by simp
    with True show ?thesis by simp
  next
    case False
    with Suc.prems have lt: "tries + 1 < max_tries" by simp
    have k: "k = max_tries - (tries + 1)" using Suc.hyps(2) by simp
    have step: "on_exception interval max_tries gu jitter target tries =
           ((interval + jitter (tries + 1))
              # fst (on_exception interval max_tries gu jitter target (tries + 1)),
            snd (on_exception interval max_tries gu jitter target (tries + 1)))"
      using on_exception_retries
          [of target tries "err (tries + 1)" gu max_tries interval jitter] assms lt
      by simp
    have up: "[tries + 1 ..< max_tries] = (tries + 1) # [tries + 1 + 1 ..< max_tries]"
      using lt by (simp add: upt_conv_Cons)
    show ?thesis
      unfolding step Suc.hyps(1) [OF k lt] up by simp
  qed
qed

text \<open>
  A failure with status 429 or at least 500 is retried: five attempts, four sleeps of 30
  plus jitter, then the last error goes to the caller.
\<close>

lemma request_retries_transient:
  assumes "\<And>n. http_get e url apikey n = Response (r n)"
    and "\<And>n. 400 \<le> status_code (r n) \<and> status_code (r n) < 600"
    and "\<And>n. status_code (r n) = 429 \<or> 500 \<le> status_code (r n)"
  shows "request e url apikey =
           ([30 + random e 1, 30 + random e 2, 30 + random e 3, 30 + random e 4],
            Inl (RequestException (Some url) (Some (r 5))))"
proof -
  have t: "request_body e url apikey n = Inl (RequestException (Some url) (Some (r n)))" for n
    using assms(1,2) by (simp add: request_body_def raise_for_status_def)
  have u: "[0 + 1 ..< 5] = [1, 2, 3, 4 :: nat]"
    by (simp add: upt_rec)
  have "on_exception 30 5 giveup (random e) (request_body e url apikey) 0
          = (map (\<lambda>n. 30 + random e n) [0 + 1 ..< 5],
             Inl (RequestException (Some url) (Some (r 5))))"
    using on_exception_all_transient
        [of "request_body e url apikey" "\<lambda>n. RequestException (Some url) (Some (r n))"
          giveup 0 5 30 "random e"] t assms(3)
    by simp
  then show ?thesis
    unfolding request_def u by simp
qed

text \<open>A failure with any other status is not retried.\<close>

lemma request_gives_up_on_other_status:
  assumes "http_get e url apikey 1 = Response r"
    and "400 \<le> status_code r" "status_code r < 500" "status_code r \<noteq> 429"
  shows "request e url apikey = ([], Inl (RequestException (Some url) (Some r)))"
proof -
  have t: "request_body e url apikey (0 + 1) = Inl (RequestException (Some url) (Some r))"
    using assms by (simp add: request_body_def raise_for_status_def)
  show ?thesis
    unfolding request_def
    using on_exception_gives_up
      [of "request_body e url apikey" 0 "RequestException (Some url) (Some r)" giveup 30 5
        "random e"] t assms(3,4)
    by simp
qed

text \<open>
  C4 is right about the statuses and fails on the code for a failure without a response:
  \<open>giveup\<close> reads \<^verbatim>\<open>error.response.text\<close> of the \<^verbatim>\<open>None\<close> response, the
  \<^verbatim>\<open>AttributeError\<close> leaves \<^verbatim>\<open>backoff\<close> on the first attempt, without a sleep
  and without a second attempt, and the run ends.
\<close>

theorem request_connection_failure_not_retried:
  "request api_down (base_url @ ''2024-01-01'') ''key'' = ([], Inl AttributeError)
   \<and> do_sync api_down (Ymd 2024 1 3) ''2024-01-01'' ''key''
       = \<lparr>messages = [], outcome = Sys_exit (- 1)\<rparr>"
  by (simp add: api_down_def tap_eval date_eval)

section \<open>The schema and the keys of a record\<close>

text \<open>
  C3 fails on the code for the key that \<open>parse_response\<close> adds for the base currency:
  the schema is updated from the keys of the raw rates, before \<open>parse_response\<close> runs.
  On the first day of a run against \<open>api_up\<close> the record has the key \<^verbatim>\<open>"USD"\<close> and
  the schema, as written and as it stands when the record is written, has not; it stays
  so for the whole run.
\<close>

theorem record_key_missing_from_schema:
  "fst (iteration api_up ''key'' schema Empty_dict ''2024-01-01'')
     = [SCHEMA ''exchange_rate''
          \<lparr>stype = ''object'',
           properties = [(''date'', String_date_time), (''base'', String_plain),
                         (''EUR'', Null_or_number)]\<rparr> ''date'',
        RECORD ''exchange_rate''
          [(''EUR'', Num (9 / 10)), (''USD'', Num 1), (''base'', Str ''USD''),
           (''date'', Str ''2024-01-01T00:00:00Z'')]]
   \<and> map_of (properties (fst (snd (iteration api_up ''key'' schema Empty_dict ''2024-01-01''))))
        ''USD'' = None
   \<and> schema_messages (messages (do_sync api_up (Ymd 2024 1 3) ''2024-01-01'' ''key''))
       = [\<lparr>stype = ''object'',
           properties = [(''date'', String_date_time), (''base'', String_plain),
                         (''EUR'', Null_or_number)]\<rparr>]
   \<and> map (\<lambda>r. map_of r ''USD'')
         (record_messages (messages (do_sync api_up (Ymd 2024 1 3) ''2024-01-01'' ''key'')))
       = [Some (Num 1), Some (Num 1), Some (Num 1)]"
  by (simp add: api_up_def tap_eval date_eval)

section \<open>Invariants of a run\<close>

lemma iterates_no_state:
  assumes "iterates e k today s n out s'"
  shows "state_messages out = []"
  using assms
proof (induction rule: iterates.induct)
  case (start e k today s)
  show ?case by simp
next
  case (step e k today s n out sch prev st nd d out' sch' st' nd' prev')
  have "state_messages out' = []"
    using iteration_no_state [of e k sch prev nd] step.hyps(4) by simp
  with step.IH show ?case by simp
qed

lemma do_sync_loop_no_state:
  "state_messages (fst (do_sync_loop e k today sch prev st nd)) = []"
proof -
  from do_sync_loop_run [of e k today sch prev st nd]
  obtain n out s' where i: "iterates e k today (sch, prev, st, nd) n out s'"
    and l: "loop_end e k today out s' (do_sync_loop e k today sch prev st nd)"
    by blast
  obtain sch' prev' st' nd' where s': "s' = (sch', prev', st', nd')" by (cases s') auto
  have o: "state_messages out = []" using i by (rule iterates_no_state)
  have o': "state_messages (fst (iteration e k sch' prev' nd')) = []"
    by (rule iteration_no_state)
  show ?thesis
    using l o o' unfolding loop_end_def s'
    by (auto split: option.splits if_splits prod.splits sum.splits)
qed

lemma exit_code_handler: "exit_code (handler err) = 255 \<or> exit_code (handler err) = 1"
  by (cases err rule: handler.cases) simp_all

lemma handler_not_Normal: "handler err \<noteq> Normal"
  by (cases err rule: handler.cases) simp_all

text \<open>After at least one iteration the state holds the day just fetched, the cursor the next.\<close>

lemma iterates_cursor:
  assumes "iterates e k today s0 n out s'"
  shows "case s' of (sch, prev, st, nd) \<Rightarrow>
           if n = 0 then s' = s0
           else \<exists>d d'. strptime (start_date st) = Some d \<and> date_le d today
                  \<and> add_day d = Some d' \<and> nd = strftime d' \<and> valid_date d'"
  using assms
proof (induction rule: iterates.induct)
  case (start e k today s)
  show ?case by (simp split: prod.splits)
next
  case (step e k today s n out sch prev st nd d out' sch' st' nd' prev')
  from iteration_state [OF step.hyps(4)] step.hyps(2,3)
  show ?case by auto
qed

lemma iterates_snapshot:
  assumes "iterates e k today s0 n out s'"
  shows "case s' of (sch, prev, st, nd) \<Rightarrow> if n = 0 then s' = s0 else prev = Deepcopy sch"
  using assms
proof (induction rule: iterates.induct)
  case (start e k today s)
  show ?case by (simp split: prod.splits)
next
  case (step e k today s n out sch prev st nd d out' sch' st' nd' prev')
  from iteration_state [OF step.hyps(4)]
  show ?case by simp
qed

text \<open>The run of \<open>do_sync\<close> when the loop ends at a test it has come to.\<close>

lemma do_sync_normal_end:
  assumes "iterates e k today (schema, Empty_dict, \<lparr>start_date = start\<rparr>, start) n out
             (sch, prev, st, nd)"
    and "strptime nd = Some d" "\<not> date_le d today"
  shows "do_sync e today start k = \<lparr>messages = out @ [STATE st], outcome = Normal\<rparr>"
  using iterates_do_sync_loop [OF assms(1)] do_sync_loop_done [OF assms(2,3), of e k sch prev st]
  by (simp add: do_sync_def)

lemma do_sync_fatal_end:
  assumes "iterates e k today (schema, Empty_dict, \<lparr>start_date = start\<rparr>, start) n out
             (sch, prev, st, nd)"
    and "strptime nd = Some d" "date_le d today"
    and "iteration e k sch prev nd = (out', sch', Inl err)"
  shows "do_sync e today start k = \<lparr>messages = out @ out', outcome = handler err\<rparr>"
  using iterates_do_sync_loop [OF assms(1)]
    do_sync_loop_stop [OF assms(2,3,4), of st]
  by (simp add: do_sync_def)

text \<open>A cursor that does not parse raises \<^verbatim>\<open>ValueError\<close> at the test of the loop.\<close>

lemma do_sync_bad_cursor_end:
  assumes "iterates e k today (schema, Empty_dict, \<lparr>start_date = start\<rparr>, start) n out
             (sch, prev, st, nd)"
    and "strptime nd = None"
  shows "do_sync e today start k = \<lparr>messages = out, outcome = Sys_exit (- 1)\<rparr>"
proof -
  have "do_sync_loop e k today sch prev st nd = ([], sch, Inl ValueError)"
    using assms(2) by (subst do_sync_loop.simps) simp
  with iterates_do_sync_loop [OF assms(1)] show ?thesis by (simp add: do_sync_def)
qed

text \<open>
  The iteration that starts at a test the run has come to, with a cursor that is due, is
  part of the run: its messages follow those written so far.
\<close>

lemma do_sync_messages_at:
  assumes "iterates e k today (schema, Empty_dict, \<lparr>start_date = start\<rparr>, start) n out
             (sch, prev, st, nd)"
    and "strptime nd = Some d" "date_le d today"
  shows "\<exists>rest. messages (do_sync e today start k) = out @ fst (iteration e k sch prev nd) @ rest"
proof -
  obtain out' sch' res where it: "iteration e k sch prev nd = (out', sch', res)"
    by (cases "iteration e k sch prev nd") auto
  show ?thesis
  proof (cases res)
    case (Inl err)
    from do_sync_fatal_end [OF assms it [unfolded Inl]]
    have "messages (do_sync e today start k) = out @ fst (iteration e k sch prev nd) @ []"
      using it by simp
    then show ?thesis by blast
  next
    case (Inr v)
    obtain st' nd' pv where v: "v = (st', nd', pv)" by (cases v) auto
    have it': "iteration e k sch prev nd = (out', sch', Inr (st', nd', pv))"
      using it Inr v by simp
    obtain o3 s3 r3 where l: "do_sync_loop e k today sch' pv st' nd' = (o3, s3, r3)"
      by (cases "do_sync_loop e k today sch' pv st' nd'") auto
    have u: "do_sync_loop e k today sch prev st nd = (out' @ o3, s3, r3)"
      using do_sync_loop_unfold [OF assms(2,3) it', of st] l by simp
    have w: "do_sync_loop e k today schema Empty_dict \<lparr>start_date = start\<rparr> start
               = (out @ out' @ o3, s3, r3)"
      using iterates_do_sync_loop [OF assms(1)] u by simp
    have "messages (do_sync e today start k)
            = out @ fst (iteration e k sch prev nd)
                @ (case r3 of Inl err \<Rightarrow> o3 | Inr s \<Rightarrow> o3 @ [STATE s])"
      using w it' by (simp add: do_sync_def split: sum.splits)
    then show ?thesis by blast
  qed
qed

lemma iterates_begin:
  assumes "iterates e k today s0 0 out s'"
  shows "out = [] \<and> s' = s0"
  using assms by (cases rule: iterates.cases) simp_all

section \<open>The STATE message\<close>

text \<open>
  C1, as stated, fails on every fatal end: the three \<^verbatim>\<open>except\<close> clauses leave through
  \<^verbatim>\<open>sys.exit(-1)\<close> and \<^verbatim>\<open>singer.write_state\<close> stands after them.  With day two
  answered by 503 at all five attempts the run writes the schema and the record of day
  one, and no STATE message.
\<close>

theorem fatal_run_writes_no_state:
  "do_sync (api_failing_on ''2024-01-02'' 503) (Ymd 2024 1 3) ''2024-01-01'' ''key''
     = \<lparr>messages =
          [SCHEMA ''exchange_rate''
             \<lparr>stype = ''object'',
              properties = [(''date'', String_date_time), (''base'', String_plain),
                            (''EUR'', Null_or_number)]\<rparr> ''date'',
           RECORD ''exchange_rate''
             [(''EUR'', Num (9 / 10)), (''USD'', Num 1), (''base'', Str ''USD''),
              (''date'', Str ''2024-01-01T00:00:00Z'')]],
        outcome = Sys_exit (- 1)\<rparr>
   \<and> state_messages
        (messages (do_sync (api_failing_on ''2024-01-02'' 503) (Ymd 2024 1 3) ''2024-01-01''
           ''key'')) = []
   \<and> exit_code
        (outcome (do_sync (api_failing_on ''2024-01-02'' 503) (Ymd 2024 1 3) ''2024-01-01''
           ''key'')) = 255"
  by (simp add: api_failing_on_def tap_eval date_eval)

text \<open>
  C1 (amended): a run of \<open>do_sync\<close> that ends normally writes exactly one STATE message,
  as its last message, and the process status is 0; a run that ends fatally writes no
  STATE message at all and the process status is not 0.
\<close>

theorem state_written_once_on_normal_end_only:
  "(if outcome (do_sync e today start k) = Normal
    then exit_code (outcome (do_sync e today start k)) = 0
      \<and> length (state_messages (messages (do_sync e today start k))) = 1
      \<and> state_messages [last (messages (do_sync e today start k))]
          = state_messages (messages (do_sync e today start k))
    else exit_code (outcome (do_sync e today start k)) \<noteq> 0
      \<and> state_messages (messages (do_sync e today start k)) = [])"
proof -
  obtain out sch res where
    l: "do_sync_loop e k today schema Empty_dict \<lparr>start_date = start\<rparr> start = (out, sch, res)"
    by (cases "do_sync_loop e k today schema Empty_dict \<lparr>start_date = start\<rparr> start") auto
  have o: "state_messages out = []"
    using do_sync_loop_no_state [of e k today schema Empty_dict "\<lparr>start_date = start\<rparr>" start] l
    by simp
  show ?thesis
  proof (cases res)
    case (Inl err)
    then have "do_sync e today start k = \<lparr>messages = out, outcome = handler err\<rparr>"
      using l by (simp add: do_sync_def)
    then show ?thesis
      using o handler_not_Normal [of err] exit_code_handler [of err] by auto
  next
    case (Inr st)
    then have "do_sync e today start k = \<lparr>messages = out @ [STATE st], outcome = Normal\<rparr>"
      using l by (simp add: do_sync_def)
    then show ?thesis using o by simp
  qed
qed

theorem state_written_once_on_normal_end_only_witness:
  "outcome (do_sync api_up (Ymd 2024 1 3) ''2024-01-01'' ''key'') = Normal
   \<and> exit_code (outcome (do_sync api_up (Ymd 2024 1 3) ''2024-01-01'' ''key'')) = 0
   \<and> length (state_messages (messages (do_sync api_up (Ymd 2024 1 3) ''2024-01-01'' ''key'')))
       = 1
   \<and> outcome (do_sync (api_status 404) (Ymd 2024 1 3) ''2024-01-01'' ''key'') = Sys_exit (- 1)
   \<and> exit_code (outcome (do_sync (api_status 404) (Ymd 2024 1 3) ''2024-01-01'' ''key'')) \<noteq> 0
   \<and> state_messages (messages (do_sync (api_status 404) (Ymd 2024 1 3) ''2024-01-01'' ''key''))
       = []"
proof -
  have a: "outcome (do_sync api_up (Ymd 2024 1 3) ''2024-01-01'' ''key'') = Normal"
    by (simp add: api_up_def tap_eval date_eval)
  have b: "outcome (do_sync (api_status 404) (Ymd 2024 1 3) ''2024-01-01'' ''key'')
             = Sys_exit (- 1)"
    by (simp add: api_status_def tap_eval date_eval)
  from state_written_once_on_normal_end_only [of api_up "Ymd 2024 1 3" "''2024-01-01''" "''key''"]
    state_written_once_on_normal_end_only
      [of "api_status 404" "Ymd 2024 1 3" "''2024-01-01''" "''key''"]
    a b
  show ?thesis by simp
qed

section \<open>The cursor and the state\<close>

text \<open>
  C2, as stated, fails: \<^verbatim>\<open>state = {"start_date": next_date}\<close> is assigned before
  \<^verbatim>\<open>next_date\<close> is advanced, so the state holds the day just fetched.  The run from
  2024-01-01 on the UTC day 2024-01-03 ends normally with the state 2024-01-03, not
  2024-01-04.
\<close>

theorem final_state_is_not_the_next_day:
  "outcome (do_sync api_up (Ymd 2024 1 3) ''2024-01-01'' ''key'') = Normal
   \<and> state_messages (messages (do_sync api_up (Ymd 2024 1 3) ''2024-01-01'' ''key''))
       = [\<lparr>start_date = ''2024-01-03''\<rparr>]
   \<and> state_messages (messages (do_sync api_up (Ymd 2024 1 3) ''2024-01-01'' ''key''))
       \<noteq> [\<lparr>start_date = ''2024-01-04''\<rparr>]"
  by (simp add: api_up_def tap_eval date_eval)

text \<open>
  C2 (amended): at every test of the loop of a run of \<open>do_sync\<close>, before the first
  iteration the state and the cursor are both the start date; after an iteration the
  in-memory state holds the day that iteration fetched, a day not after today, and the
  cursor holds the day after it, as \<^verbatim>\<open>strftime\<close> prints it.  An iteration sets
  the state to the cursor it started with, so from the second iteration on the state's
  date grows by exactly one day per iteration and it never decreases.  When the loop
  ends normally at that test, the STATE message written is that state: the last day
  fetched, one day before the cursor.  The cursor is read back as the day after exactly
  when that day is in the year 1000 or later; a cursor for an earlier year is printed
  without leading zeros, does not parse, and the run ends there through
  \<^verbatim>\<open>sys.exit(-1)\<close>.
\<close>

theorem state_holds_the_day_fetched:
  assumes "iterates e k today (schema, Empty_dict, \<lparr>start_date = start\<rparr>, start) n out
             (sch, prev, st, nd)"
  shows "(if n = 0 then st = \<lparr>start_date = start\<rparr> \<and> nd = start
          else \<exists>d d'. strptime (start_date st) = Some d \<and> date_le d today
                 \<and> add_day d = Some d' \<and> nd = strftime d'
                 \<and> strptime nd = (if 1000 \<le> year d' then Some d' else None))
    \<and> (\<forall>out' sch' st' nd' prev'.
          iteration e k sch prev nd = (out', sch', Inr (st', nd', prev'))
          \<longrightarrow> start_date st' = nd)
    \<and> (\<forall>dn. strptime nd = Some dn \<and> \<not> date_le dn today
          \<longrightarrow> do_sync e today start k = \<lparr>messages = out @ [STATE st], outcome = Normal\<rparr>)
    \<and> (strptime nd = None
          \<longrightarrow> do_sync e today start k = \<lparr>messages = out, outcome = Sys_exit (- 1)\<rparr>)"
proof -
  have 1: "if n = 0 then st = \<lparr>start_date = start\<rparr> \<and> nd = start
          else \<exists>d d'. strptime (start_date st) = Some d \<and> date_le d today
                 \<and> add_day d = Some d' \<and> nd = strftime d'
                 \<and> strptime nd = (if 1000 \<le> year d' then Some d' else None)"
  proof (cases "n = 0")
    case True
    with iterates_cursor [OF assms] show ?thesis by simp
  next
    case False
    with iterates_cursor [OF assms] obtain d d' where
      c: "strptime (start_date st) = Some d" "date_le d today" "add_day d = Some d'"
        "nd = strftime d'" "valid_date d'"
      by auto
    have "strptime nd = (if 1000 \<le> year d' then Some d' else None)"
      unfolding c(4) using c(5) by (rule strptime_strftime_cases)
    with c False show ?thesis by auto
  qed
  have 2: "start_date st' = nd"
    if "iteration e k sch prev nd = (out', sch', Inr (st', nd', prev'))"
    for out' sch' st' nd' prev'
    using iteration_state [OF that] by simp
  have 3: "do_sync e today start k = \<lparr>messages = out @ [STATE st], outcome = Normal\<rparr>"
    if "strptime nd = Some dn \<and> \<not> date_le dn today" for dn
    using do_sync_normal_end [OF assms] that by blast
  have 4: "do_sync e today start k = \<lparr>messages = out, outcome = Sys_exit (- 1)\<rparr>"
    if "strptime nd = None"
    using assms that by (rule do_sync_bad_cursor_end)
  from 1 2 3 4 show ?thesis by blast
qed

text \<open>The run against \<open>api_up\<close> from 2024-01-01 on the UTC day 2024-01-03, step by step.\<close>

lemma api_up_day_1:
  "iteration api_up ''key'' schema Empty_dict ''2024-01-01'' =
     ([SCHEMA ''exchange_rate'' schema_eur ''date'', record_usd ''2024-01-01T00:00:00Z''],
      schema_eur, Inr (\<lparr>start_date = ''2024-01-01''\<rparr>, ''2024-01-02'', Deepcopy schema_eur))"
  by (simp add: api_up_def schema_eur_def record_usd_def tap_eval date_eval)

lemma api_up_day_2:
  "iteration api_up ''key'' schema_eur (Deepcopy schema_eur) ''2024-01-02'' =
     ([record_usd ''2024-01-02T00:00:00Z''],
      schema_eur, Inr (\<lparr>start_date = ''2024-01-02''\<rparr>, ''2024-01-03'', Deepcopy schema_eur))"
  by (simp add: api_up_def schema_eur_def record_usd_def tap_eval date_eval)

lemma api_up_day_3:
  "iteration api_up ''key'' schema_eur (Deepcopy schema_eur) ''2024-01-03'' =
     ([record_usd ''2024-01-03T00:00:00Z''],
      schema_eur, Inr (\<lparr>start_date = ''2024-01-03''\<rparr>, ''2024-01-04'', Deepcopy schema_eur))"
  by (simp add: api_up_def schema_eur_def record_usd_def tap_eval date_eval)

lemma api_up_after_1:
  "iterates api_up ''key'' (Ymd 2024 1 3)
     (schema, Empty_dict, \<lparr>start_date = ''2024-01-01''\<rparr>, ''2024-01-01'') (Suc 0)
     [SCHEMA ''exchange_rate'' schema_eur ''date'', record_usd ''2024-01-01T00:00:00Z'']
     (schema_eur, Deepcopy schema_eur, \<lparr>start_date = ''2024-01-01''\<rparr>, ''2024-01-02'')"
proof -
  have p: "strptime ''2024-01-01'' = Some (Ymd 2024 1 1)" by (simp add: date_eval)
  have l: "date_le (Ymd 2024 1 1) (Ymd 2024 1 3)" by (simp add: date_eval)
  from iterates.step [OF iterates.start p l api_up_day_1] show ?thesis by simp
qed

lemma api_up_after_2:
  "iterates api_up ''key'' (Ymd 2024 1 3)
     (schema, Empty_dict, \<lparr>start_date = ''2024-01-01''\<rparr>, ''2024-01-01'') (Suc (Suc 0))
     [SCHEMA ''exchange_rate'' schema_eur ''date'', record_usd ''2024-01-01T00:00:00Z'',
      record_usd ''2024-01-02T00:00:00Z'']
     (schema_eur, Deepcopy schema_eur, \<lparr>start_date = ''2024-01-02''\<rparr>, ''2024-01-03'')"
proof -
  have p: "strptime ''2024-01-02'' = Some (Ymd 2024 1 2)" by (simp add: date_eval)
  have l: "date_le (Ymd 2024 1 2) (Ymd 2024 1 3)" by (simp add: date_eval)
  from iterates.step [OF api_up_after_1 p l api_up_day_2] show ?thesis by simp
qed

lemma api_up_after_3:
  "iterates api_up ''key'' (Ymd 2024 1 3)
     (schema, Empty_dict, \<lparr>start_date = ''2024-01-01''\<rparr>, ''2024-01-01'') (Suc (Suc (Suc 0)))
     [SCHEMA ''exchange_rate'' schema_eur ''date'', record_usd ''2024-01-01T00:00:00Z'',
      record_usd ''2024-01-02T00:00:00Z'', record_usd ''2024-01-03T00:00:00Z'']
     (schema_eur, Deepcopy schema_eur, \<lparr>start_date = ''2024-01-03''\<rparr>, ''2024-01-04'')"
proof -
  have p: "strptime ''2024-01-03'' = Some (Ymd 2024 1 3)" by (simp add: date_eval)
  have l: "date_le (Ymd 2024 1 3) (Ymd 2024 1 3)" by (simp add: date_eval)
  from iterates.step [OF api_up_after_2 p l api_up_day_3] show ?thesis by simp
qed

theorem state_holds_the_day_fetched_witness:
  "strptime ''2024-01-03'' = Some (Ymd 2024 1 3)
   \<and> add_day (Ymd 2024 1 3) = Some (Ymd 2024 1 4)
   \<and> ''2024-01-04'' = strftime (Ymd 2024 1 4)
   \<and> do_sync api_up (Ymd 2024 1 3) ''2024-01-01'' ''key''
       = \<lparr>messages =
            [SCHEMA ''exchange_rate'' schema_eur ''date'', record_usd ''2024-01-01T00:00:00Z'',
             record_usd ''2024-01-02T00:00:00Z'', record_usd ''2024-01-03T00:00:00Z'',
             STATE \<lparr>start_date = ''2024-01-03''\<rparr>],
          outcome = Normal\<rparr>"
proof -
  have p: "strptime ''2024-01-04'' = Some (Ymd 2024 1 4)" by (simp add: date_eval)
  have l: "\<not> date_le (Ymd 2024 1 4) (Ymd 2024 1 3)" by (simp add: date_eval)
  have q: "strptime ''2024-01-03'' = Some (Ymd 2024 1 3)"
    "add_day (Ymd 2024 1 3) = Some (Ymd 2024 1 4)" "''2024-01-04'' = strftime (Ymd 2024 1 4)"
    by (simp_all add: date_eval)
  from state_holds_the_day_fetched [OF api_up_after_3] p l
  have "do_sync api_up (Ymd 2024 1 3) ''2024-01-01'' ''key''
       = \<lparr>messages =
            [SCHEMA ''exchange_rate'' schema_eur ''date'', record_usd ''2024-01-01T00:00:00Z'',
             record_usd ''2024-01-02T00:00:00Z'', record_usd ''2024-01-03T00:00:00Z'']
            @ [STATE \<lparr>start_date = ''2024-01-03''\<rparr>],
          outcome = Normal\<rparr>"
    by blast
  with q show ?thesis by simp
qed

section \<open>When the schema is written\<close>

lemma iteration_evolves:
  assumes "snd (request e (base_url @ nd) k) = Inr resp" "j_rates (json_body resp) = Some rs"
  shows "fst (snd (iteration e k sch prev nd)) = evolved sch rs"
  using assms
  by (simp add: iteration_def json_load_def keys_json Let_def
      split: option.splits sum.splits prod.splits)

lemma iteration_schema_messages:
  assumes "snd (request e (base_url @ nd) k) = Inr resp" "j_rates (json_body resp) = Some rs"
  shows "schema_messages (fst (iteration e k sch prev nd)) =
           (if schema_ne (evolved sch rs) prev then [evolved sch rs] else [])"
  using assms
  by (simp add: iteration_def json_load_def keys_json Let_def
      split: option.splits sum.splits prod.splits)

text \<open>
  An iteration that starts with the copy of the schema as it stands decides on the schema
  it leaves, also when it raises before the decision: then it leaves the schema as it was
  and writes nothing.
\<close>

lemma iteration_schema_decision:
  "schema_messages (fst (iteration e k sch (Deepcopy sch) nd)) =
     (if schema_ne (fst (snd (iteration e k sch (Deepcopy sch) nd))) (Deepcopy sch)
      then [fst (snd (iteration e k sch (Deepcopy sch) nd))] else [])"
proof (cases "snd (request e (base_url @ nd) k)")
  case (Inl err)
  then show ?thesis by (simp add: iteration_fetch_error dict_eq_iff)
next
  case (Inr resp)
  show ?thesis
  proof (cases "j_rates (json_body resp)")
    case None
    with Inr show ?thesis by (simp add: iteration_no_rates dict_eq_iff)
  next
    case (Some rs)
    from iteration_schema_messages [OF Inr Some] iteration_evolves [OF Inr Some]
    show ?thesis by simp
  qed
qed

text \<open>An iteration writes its schema message, if any, before its record, if any.\<close>

lemma iteration_message_order:
  "fst (iteration e k sch prev nd) =
     map (\<lambda>s. SCHEMA ''exchange_rate'' s ''date'') (schema_messages (fst (iteration e k sch prev nd)))
     @ map (RECORD ''exchange_rate'') (record_messages (fst (iteration e k sch prev nd)))"
  by (simp add: iteration_def json_load_def Let_def
      split: option.splits sum.splits prod.splits)

text \<open>
  C5: when a run of \<open>do_sync\<close> has come, after \<open>n\<close> complete iterations, to a day
  that is due, \<^verbatim>\<open>prev_schema\<close> is the empty dictionary if \<open>n = 0\<close> and otherwise
  the copy of the schema taken at the end of the preceding iteration, and what the
  iteration for that day writes is the next part of the output of the run.  The first
  iteration, once it has its payload, writes the schema whatever the rates are, and that
  schema message is the first message of the run.  A later iteration writes the schema
  if and only if the schema, at its decision, differs from that copy as a dictionary: in
  its type or in the map of its properties.
\<close>

theorem schema_emitted_first_then_on_change:
  assumes "iterates e k today (schema, Empty_dict, \<lparr>start_date = start\<rparr>, start) n out
             (sch, prev, st, nd)"
    and "strptime nd = Some d" "date_le d today"
  shows "prev = (if n = 0 then Empty_dict else Deepcopy sch)
    \<and> (\<exists>rest. messages (do_sync e today start k)
                 = out @ fst (iteration e k sch prev nd) @ rest)
    \<and> (\<forall>resp rs. n = 0 \<and> snd (request e (base_url @ nd) k) = Inr resp
            \<and> j_rates (json_body resp) = Some rs
          \<longrightarrow> schema_messages (fst (iteration e k sch prev nd)) = [evolved sch rs]
              \<and> fst (snd (iteration e k sch prev nd)) = evolved sch rs
              \<and> (\<exists>rest. messages (do_sync e today start k)
                           = SCHEMA ''exchange_rate'' (evolved schema rs) ''date'' # rest))
    \<and> (0 < n
          \<longrightarrow> schema_messages (fst (iteration e k sch prev nd)) =
              (if stype (fst (snd (iteration e k sch prev nd))) = stype sch
                  \<and> map_of (properties (fst (snd (iteration e k sch prev nd))))
                      = map_of (properties sch)
               then [] else [fst (snd (iteration e k sch prev nd))]))"
proof -
  have p: "prev = (if n = 0 then Empty_dict else Deepcopy sch)"
    using iterates_snapshot [OF assms(1)] by (simp split: if_splits)
  from do_sync_messages_at [OF assms] obtain rest where
    run: "messages (do_sync e today start k) = out @ fst (iteration e k sch prev nd) @ rest"
    by blast
  have first: "schema_messages (fst (iteration e k sch prev nd)) = [evolved sch rs]
              \<and> fst (snd (iteration e k sch prev nd)) = evolved sch rs
              \<and> (\<exists>rest. messages (do_sync e today start k)
                           = SCHEMA ''exchange_rate'' (evolved schema rs) ''date'' # rest)"
    if "n = 0 \<and> snd (request e (base_url @ nd) k) = Inr resp
          \<and> j_rates (json_body resp) = Some rs" for resp rs
  proof -
    from that have r: "snd (request e (base_url @ nd) k) = Inr resp"
      "j_rates (json_body resp) = Some rs" and e: "prev = Empty_dict" and n: "n = 0"
      using p by simp_all
    from iterates_begin [OF assms(1) [unfolded n]] have b: "out = []" "sch = schema"
      by simp_all
    have m: "schema_messages (fst (iteration e k sch prev nd)) = [evolved sch rs]"
      using iteration_schema_messages [OF r, of sch prev] e by simp
    have "fst (iteration e k sch prev nd)
            = SCHEMA ''exchange_rate'' (evolved sch rs) ''date''
                # map (RECORD ''exchange_rate'')
                    (record_messages (fst (iteration e k sch prev nd)))"
      by (subst iteration_message_order) (simp add: m)
    then have "messages (do_sync e today start k)
            = SCHEMA ''exchange_rate'' (evolved schema rs) ''date''
                # (map (RECORD ''exchange_rate'')
                    (record_messages (fst (iteration e k sch prev nd))) @ rest)"
      using run b by simp
    with m iteration_evolves [OF r, of sch prev] show ?thesis by blast
  qed
  have later: "schema_messages (fst (iteration e k sch prev nd)) =
              (if stype (fst (snd (iteration e k sch prev nd))) = stype sch
                  \<and> map_of (properties (fst (snd (iteration e k sch prev nd))))
                      = map_of (properties sch)
               then [] else [fst (snd (iteration e k sch prev nd))])"
    if "0 < n"
  proof -
    from that p have e: "prev = Deepcopy sch" by simp
    show ?thesis
      unfolding e iteration_schema_decision [of e k sch nd] by (simp add: dict_eq_iff)
  qed
  from p run first later show ?thesis by blast
qed

lemma api_up_request:
  "snd (request api_up (base_url @ dt) ''key'')
     = Inr \<lparr>status_code = 200, body_text = [], json_body = usd_body dt\<rparr>"
  by (simp add: api_up_def request_def request_body_def raise_for_status_def
      on_exception.simps requested_day_def)

theorem schema_emitted_first_then_on_change_witness:
  "schema_messages (fst (iteration api_up ''key'' schema Empty_dict ''2024-01-01''))
     = [schema_eur]
   \<and> (\<exists>rest. messages (do_sync api_up (Ymd 2024 1 3) ''2024-01-01'' ''key'')
                = SCHEMA ''exchange_rate'' schema_eur ''date'' # rest)
   \<and> schema_messages
       (fst (iteration api_up ''key'' schema_eur (Deepcopy schema_eur) ''2024-01-02'')) = []
   \<and> (\<exists>rest. messages (do_sync api_up (Ymd 2024 1 3) ''2024-01-01'' ''key'')
                = [SCHEMA ''exchange_rate'' schema_eur ''date'',
                   record_usd ''2024-01-01T00:00:00Z'', record_usd ''2024-01-02T00:00:00Z'']
                  @ rest)"
proof -
  have r: "j_rates (json_body \<lparr>status_code = 200, body_text = [], json_body = usd_body dt\<rparr>)
             = Some [(''EUR'', 9 / 10)]" for dt
    by (simp add: usd_body_def)
  have p1: "strptime ''2024-01-01'' = Some (Ymd 2024 1 1)"
    and l1: "date_le (Ymd 2024 1 1) (Ymd 2024 1 3)"
    and p2: "strptime ''2024-01-02'' = Some (Ymd 2024 1 2)"
    and l2: "date_le (Ymd 2024 1 2) (Ymd 2024 1 3)"
    by (simp_all add: date_eval)
  have s: "evolved schema [(''EUR'', 9 / 10)] = schema_eur"
    by (simp add: schema_def schema_eur_def)
  note t1 = schema_emitted_first_then_on_change
      [OF iterates.start [of api_up "''key''" "Ymd 2024 1 3"
              "(schema, Empty_dict, \<lparr>start_date = ''2024-01-01''\<rparr>, ''2024-01-01'')"] p1 l1]
  from t1 api_up_request [of "''2024-01-01''"] r [of "''2024-01-01''"]
  have "schema_messages (fst (iteration api_up ''key'' schema Empty_dict ''2024-01-01''))
          = [evolved schema [(''EUR'', 9 / 10)]]
        \<and> (\<exists>rest. messages (do_sync api_up (Ymd 2024 1 3) ''2024-01-01'' ''key'')
                = SCHEMA ''exchange_rate'' (evolved schema [(''EUR'', 9 / 10)]) ''date'' # rest)"
    by blast
  then have 1: "schema_messages (fst (iteration api_up ''key'' schema Empty_dict ''2024-01-01''))
          = [schema_eur]
        \<and> (\<exists>rest. messages (do_sync api_up (Ymd 2024 1 3) ''2024-01-01'' ''key'')
                = SCHEMA ''exchange_rate'' schema_eur ''date'' # rest)"
    unfolding s .
  note t2 = schema_emitted_first_then_on_change [OF api_up_after_1 p2 l2]
  have 2: "schema_messages
       (fst (iteration api_up ''key'' schema_eur (Deepcopy schema_eur) ''2024-01-02'')) = []"
    using t2 by (simp add: api_up_day_2)
  from t2 obtain rest where
    "messages (do_sync api_up (Ymd 2024 1 3) ''2024-01-01'' ''key'')
       = [SCHEMA ''exchange_rate'' schema_eur ''date'', record_usd ''2024-01-01T00:00:00Z'']
         @ fst (iteration api_up ''key'' schema_eur (Deepcopy schema_eur) ''2024-01-02'') @ rest"
    by blast
  then have 3: "\<exists>rest. messages (do_sync api_up (Ymd 2024 1 3) ''2024-01-01'' ''key'')
                = [SCHEMA ''exchange_rate'' schema_eur ''date'',
                   record_usd ''2024-01-01T00:00:00Z'', record_usd ''2024-01-02T00:00:00Z'']
                  @ rest"
    by (simp add: api_up_day_2)
  from 1 2 3 show ?thesis by blast
qed

section \<open>When a record is written\<close>

lemma api_stale_request:
  "snd (request api_stale (base_url @ dt) ''key'')
     = Inr \<lparr>status_code = 200, body_text = [], json_body = usd_body ''2024-01-01''\<rparr>"
  by (simp add: api_stale_def request_def request_body_def raise_for_status_def
      on_exception.simps)

lemma api_stale_after_1:
  "iterates api_stale ''key'' (Ymd 2024 1 3)
     (schema, Empty_dict, \<lparr>start_date = ''2024-01-01''\<rparr>, ''2024-01-01'') (Suc 0)
     [SCHEMA ''exchange_rate'' schema_eur ''date'', record_usd ''2024-01-01T00:00:00Z'']
     (schema_eur, Deepcopy schema_eur, \<lparr>start_date = ''2024-01-01''\<rparr>, ''2024-01-02'')"
proof -
  have p: "strptime ''2024-01-01'' = Some (Ymd 2024 1 1)" by (simp add: date_eval)
  have l: "date_le (Ymd 2024 1 1) (Ymd 2024 1 3)" by (simp add: date_eval)
  have i: "iteration api_stale ''key'' schema Empty_dict ''2024-01-01'' =
     ([SCHEMA ''exchange_rate'' schema_eur ''date'', record_usd ''2024-01-01T00:00:00Z''],
      schema_eur, Inr (\<lparr>start_date = ''2024-01-01''\<rparr>, ''2024-01-02'', Deepcopy schema_eur))"
    by (simp add: api_stale_def schema_eur_def record_usd_def tap_eval date_eval)
  from iterates.step [OF iterates.start p l i] show ?thesis by simp
qed

lemma api_with_body_request:
  "snd (request (api_with_body bad b) (base_url @ bad) ''key'')
     = Inr \<lparr>status_code = 200, body_text = [], json_body = b\<rparr>"
  by (simp add: api_with_body_def request_def request_body_def raise_for_status_def
      on_exception.simps requested_day_def)

text \<open>The records of an iteration that has its payload, whatever the payload holds.\<close>

lemma iteration_records:
  assumes "snd (request e (base_url @ nd) k) = Inr resp" "strptime nd = Some d"
  shows "record_messages (fst (iteration e k sch prev nd))
           = (case j_rates (json_body resp) of
                None \<Rightarrow> []
              | Some rs \<Rightarrow>
                  (case j_date (json_body resp) of
                     None \<Rightarrow> []
                   | Some dt \<Rightarrow>
                       (case j_base (json_body resp) of
                          None \<Rightarrow> []
                        | Some b \<Rightarrow> if dt = nd then [flat_record b d rs] else [])))"
  using assms
  by (simp add: iteration_def json_load_def keys_json Let_def parse_response_def
      split: option.splits)

text \<open>
  C6, as stated, fails for a payload that carries the date of the day asked for and has
  no \<^verbatim>\<open>base\<close>: \<open>parse_response\<close> raises \<^verbatim>\<open>KeyError\<close> before a record is
  written.  Asked for 2024-01-01 and answered with that date and without \<^verbatim>\<open>base\<close>,
  the run writes the schema and no record, and ends through \<^verbatim>\<open>sys.exit(-1)\<close>.
\<close>

theorem matching_date_without_base_writes_no_record:
  "snd (request (api_with_body ''2024-01-01'' body_without_base) (base_url @ ''2024-01-01'')
          ''key'')
     = Inr \<lparr>status_code = 200, body_text = [], json_body = body_without_base\<rparr>
   \<and> j_date body_without_base = Some ''2024-01-01''
   \<and> record_messages
        (fst (iteration (api_with_body ''2024-01-01'' body_without_base) ''key'' schema
                Empty_dict ''2024-01-01'')) = []
   \<and> snd (snd (iteration (api_with_body ''2024-01-01'' body_without_base) ''key'' schema
                 Empty_dict ''2024-01-01'')) = Inl (KeyError ''base'')
   \<and> do_sync (api_with_body ''2024-01-01'' body_without_base) (Ymd 2024 1 3) ''2024-01-01''
        ''key''
     = \<lparr>messages = [SCHEMA ''exchange_rate'' schema_eur ''date''],
        outcome = Sys_exit (- 1)\<rparr>"
  by (simp add: api_with_body_def body_without_base_def schema_eur_def tap_eval date_eval)

text \<open>
  C6 (amended): when a run of \<open>do_sync\<close> has come to a day \<open>nd\<close> that is due and
  has fetched a payload for it, the iteration writes a record if and only if the payload
  has \<^verbatim>\<open>rates\<close>, has a \<^verbatim>\<open>date\<close> equal to \<open>nd\<close> and has \<^verbatim>\<open>base\<close>; the
  record is then the normalised payload.  With \<^verbatim>\<open>rates\<close> and a \<^verbatim>\<open>date\<close> that
  differs from \<open>nd\<close> nothing is raised and no record is written, and with the three
  keys and the date \<open>nd\<close> the record is written; in both cases the iteration ends
  normally with the cursor on the day after \<open>nd\<close>, if there is one in the calendar
  of \<^verbatim>\<open>datetime\<close>.  With the date \<open>nd\<close> and without \<^verbatim>\<open>base\<close> the iteration
  raises \<^verbatim>\<open>KeyError\<close>.  What the iteration writes is the next part of the output of
  the run.
\<close>

theorem record_emitted_iff_dates_match:
  assumes "iterates e k today (schema, Empty_dict, \<lparr>start_date = start\<rparr>, start) n out
             (sch, prev, st, nd)"
    and "strptime nd = Some d" "date_le d today"
    and "snd (request e (base_url @ nd) k) = Inr resp"
  shows "record_messages (fst (iteration e k sch prev nd))
           = (case j_rates (json_body resp) of
                None \<Rightarrow> []
              | Some rs \<Rightarrow>
                  (case j_date (json_body resp) of
                     None \<Rightarrow> []
                   | Some dt \<Rightarrow>
                       (case j_base (json_body resp) of
                          None \<Rightarrow> []
                        | Some b \<Rightarrow> if dt = nd then [flat_record b d rs] else [])))
    \<and> (record_messages (fst (iteration e k sch prev nd)) \<noteq> [])
        = (j_rates (json_body resp) \<noteq> None \<and> j_date (json_body resp) = Some nd
           \<and> j_base (json_body resp) \<noteq> None)
    \<and> (\<forall>rs dt d'. j_rates (json_body resp) = Some rs \<and> j_date (json_body resp) = Some dt
            \<and> dt \<noteq> nd \<and> add_day d = Some d'
          \<longrightarrow> snd (snd (iteration e k sch prev nd))
                = Inr (\<lparr>start_date = nd\<rparr>, strftime d', Deepcopy (evolved sch rs)))
    \<and> (\<forall>rs b d'. j_rates (json_body resp) = Some rs \<and> j_date (json_body resp) = Some nd
            \<and> j_base (json_body resp) = Some b \<and> add_day d = Some d'
          \<longrightarrow> snd (snd (iteration e k sch prev nd))
                = Inr (\<lparr>start_date = nd\<rparr>, strftime d', Deepcopy (evolved sch rs)))
    \<and> (\<forall>rs. j_rates (json_body resp) = Some rs \<and> j_date (json_body resp) = Some nd
            \<and> j_base (json_body resp) = None
          \<longrightarrow> snd (snd (iteration e k sch prev nd)) = Inl (KeyError ''base''))
    \<and> (\<exists>rest. messages (do_sync e today start k)
                 = out @ fst (iteration e k sch prev nd) @ rest)"
proof -
  note recs = iteration_records [OF assms(4,2), of sch prev]
  have iff: "(record_messages (fst (iteration e k sch prev nd)) \<noteq> [])
        = (j_rates (json_body resp) \<noteq> None \<and> j_date (json_body resp) = Some nd
           \<and> j_base (json_body resp) \<noteq> None)"
    unfolding recs by (simp split: option.splits)
  have skip: "snd (snd (iteration e k sch prev nd))
                = Inr (\<lparr>start_date = nd\<rparr>, strftime d', Deepcopy (evolved sch rs))"
    if "j_rates (json_body resp) = Some rs \<and> j_date (json_body resp) = Some dt
            \<and> dt \<noteq> nd \<and> add_day d = Some d'" for rs dt d'
  proof -
    from that have a: "j_rates (json_body resp) = Some rs" "j_date (json_body resp) = Some dt"
      "dt \<noteq> nd" "add_day d = Some d'" by simp_all
    from iteration_mismatch [OF assms(4) a(1,2,3) assms(2) a(4), of sch prev]
    show ?thesis by simp
  qed
  have match: "snd (snd (iteration e k sch prev nd))
                = Inr (\<lparr>start_date = nd\<rparr>, strftime d', Deepcopy (evolved sch rs))"
    if "j_rates (json_body resp) = Some rs \<and> j_date (json_body resp) = Some nd
            \<and> j_base (json_body resp) = Some b \<and> add_day d = Some d'" for rs b d'
  proof -
    from that have a: "j_rates (json_body resp) = Some rs" "j_date (json_body resp) = Some nd"
      "j_base (json_body resp) = Some b" "add_day d = Some d'" by simp_all
    from iteration_match [OF assms(4) a(1,2,3) assms(2) a(4), of sch prev]
    show ?thesis by simp
  qed
  have nobase: "snd (snd (iteration e k sch prev nd)) = Inl (KeyError ''base'')"
    if "j_rates (json_body resp) = Some rs \<and> j_date (json_body resp) = Some nd
            \<and> j_base (json_body resp) = None" for rs
  proof -
    from that have a: "j_rates (json_body resp) = Some rs" "j_date (json_body resp) = Some nd"
      "j_base (json_body resp) = None" by simp_all
    from iteration_no_base [OF assms(4) a, of sch prev]
    show ?thesis by simp
  qed
  from recs iff skip match nobase do_sync_messages_at [OF assms(1,2,3)]
  show ?thesis by blast
qed

theorem record_emitted_iff_dates_match_witness:
  "record_messages (fst (iteration api_stale ''key'' schema Empty_dict ''2024-01-01''))
     = [[(''EUR'', Num (9 / 10)), (''USD'', Num 1), (''base'', Str ''USD''),
         (''date'', Str ''2024-01-01T00:00:00Z'')]]
   \<and> record_messages
        (fst (iteration api_stale ''key'' schema_eur (Deepcopy schema_eur) ''2024-01-02'')) = []
   \<and> snd (snd (iteration api_stale ''key'' schema_eur (Deepcopy schema_eur) ''2024-01-02''))
       = Inr (\<lparr>start_date = ''2024-01-02''\<rparr>, ''2024-01-03'', Deepcopy schema_eur)
   \<and> fst (iteration api_stale ''key'' schema_eur (Deepcopy schema_eur) ''2024-01-02'') = []
   \<and> (\<exists>rest. messages (do_sync api_stale (Ymd 2024 1 3) ''2024-01-01'' ''key'')
                = [SCHEMA ''exchange_rate'' schema_eur ''date'',
                   record_usd ''2024-01-01T00:00:00Z'']
                  @ fst (iteration api_stale ''key'' schema_eur (Deepcopy schema_eur)
                           ''2024-01-02'')
                  @ rest)"
proof -
  let ?resp = "\<lparr>status_code = 200, body_text = [], json_body = usd_body ''2024-01-01''\<rparr>"
  have r: "j_rates (json_body ?resp) = Some [(''EUR'', 9 / 10)]"
    and t: "j_date (json_body ?resp) = Some ''2024-01-01''"
    and b: "j_base (json_body ?resp) = Some ''USD''"
    by (simp_all add: usd_body_def)
  have p1: "strptime ''2024-01-01'' = Some (Ymd 2024 1 1)"
    and l1: "date_le (Ymd 2024 1 1) (Ymd 2024 1 3)"
    and p2: "strptime ''2024-01-02'' = Some (Ymd 2024 1 2)"
    and l2: "date_le (Ymd 2024 1 2) (Ymd 2024 1 3)"
    and a2: "add_day (Ymd 2024 1 2) = Some (Ymd 2024 1 3)"
    and f2: "strftime (Ymd 2024 1 3) = ''2024-01-03''"
    and ne: "''2024-01-01'' \<noteq> ''2024-01-02''"
    by (simp_all add: date_eval)
  note t1 = record_emitted_iff_dates_match
      [OF iterates.start [of api_stale "''key''" "Ymd 2024 1 3"
              "(schema, Empty_dict, \<lparr>start_date = ''2024-01-01''\<rparr>, ''2024-01-01'')"]
          p1 l1 api_stale_request]
  have 1: "record_messages (fst (iteration api_stale ''key'' schema Empty_dict ''2024-01-01''))
     = [[(''EUR'', Num (9 / 10)), (''USD'', Num 1), (''base'', Str ''USD''),
         (''date'', Str ''2024-01-01T00:00:00Z'')]]"
    using t1 r t b by (simp add: date_eval)
  note t2 = record_emitted_iff_dates_match [OF api_stale_after_1 p2 l2 api_stale_request]
  have 2: "record_messages
        (fst (iteration api_stale ''key'' schema_eur (Deepcopy schema_eur) ''2024-01-02'')) = []"
    using t2 r t b by simp
  from t2 r t ne a2
  have "snd (snd (iteration api_stale ''key'' schema_eur (Deepcopy schema_eur) ''2024-01-02''))
       = Inr (\<lparr>start_date = ''2024-01-02''\<rparr>, strftime (Ymd 2024 1 3),
              Deepcopy (evolved schema_eur [(''EUR'', 9 / 10)]))"
    by blast
  then have 3: "snd (snd (iteration api_stale ''key'' schema_eur (Deepcopy schema_eur)
                            ''2024-01-02''))
       = Inr (\<lparr>start_date = ''2024-01-02''\<rparr>, ''2024-01-03'', Deepcopy schema_eur)"
    unfolding f2 by (simp add: schema_eur_def)
  from t2 have 4: "\<exists>rest. messages (do_sync api_stale (Ymd 2024 1 3) ''2024-01-01'' ''key'')
                = [SCHEMA ''exchange_rate'' schema_eur ''date'',
                   record_usd ''2024-01-01T00:00:00Z'']
                  @ fst (iteration api_stale ''key'' schema_eur (Deepcopy schema_eur)
                           ''2024-01-02'')
                  @ rest"
    by blast
  have 5: "fst (iteration api_stale ''key'' schema_eur (Deepcopy schema_eur) ''2024-01-02'') = []"
    by (simp add: api_stale_def schema_eur_def tap_eval date_eval)
  from 1 2 3 4 5 show ?thesis by blast
qed

section \<open>The growth of the schema\<close>

lemma add_rates_keeps: "map_of ps c = Some v \<Longrightarrow> map_of (add_rates ks ps) c = Some v"
  by (simp add: map_of_add_rates)

lemma iteration_keeps:
  assumes "map_of (properties sch) c = Some v"
  shows "map_of (properties (fst (snd (iteration e k sch prev nd)))) c = Some v"
proof -
  from iteration_schema [of e k sch prev nd] obtain ks where
    "fst (snd (iteration e k sch prev nd)) = sch\<lparr>properties := add_rates ks (properties sch)\<rparr>"
    by blast
  with assms show ?thesis by (simp add: add_rates_keeps)
qed

lemma iterates_keeps:
  assumes "iterates e k today s0 n out s'" "map_of (properties (fst s0)) c = Some v"
  shows "map_of (properties (fst s')) c = Some v"
  using assms
proof (induction rule: iterates.induct)
  case (start e k today s)
  then show ?case by simp
next
  case (step e k today s n out sch prev st nd d out' sch' st' nd' prev')
  have "map_of (properties sch) c = Some v" using step.IH step.prems by simp
  from iteration_keeps [OF this, of e k prev nd] step.hyps(4) show ?case by simp
qed

text \<open>The schema at the end of the loop has every field the loop started with.\<close>

lemma do_sync_loop_keeps:
  assumes "map_of (properties sch) c = Some v"
  shows "map_of (properties (fst (snd (do_sync_loop e k today sch prev st nd)))) c = Some v"
proof -
  from do_sync_loop_run [of e k today sch prev st nd]
  obtain n out s' where i: "iterates e k today (sch, prev, st, nd) n out s'"
    and l: "loop_end e k today out s' (do_sync_loop e k today sch prev st nd)"
    by blast
  obtain sch' prev' st' nd' where s': "s' = (sch', prev', st', nd')" by (cases s') auto
  have a: "map_of (properties sch') c = Some v"
    using iterates_keeps [OF i, of c v] assms s' by simp
  have b: "map_of (properties (fst (snd (iteration e k sch' prev' nd')))) c = Some v"
    using a by (rule iteration_keeps)
  show ?thesis
    using l a b unfolding loop_end_def s'
    by (auto split: option.splits if_splits prod.splits sum.splits)
qed

text \<open>
  The schema at the end of a run has every field that an iteration of the run has left.
\<close>

lemma do_sync_loop_keeps_iteration:
  assumes "iterates e k today (sch0, prev0, st0, nd0) n out (sch, prev, st, nd)"
    and "strptime nd = Some d" "date_le d today"
    and "map_of (properties (fst (snd (iteration e k sch prev nd)))) c = Some v"
  shows "map_of (properties (fst (snd (do_sync_loop e k today sch0 prev0 st0 nd0)))) c = Some v"
proof -
  have same: "fst (snd (do_sync_loop e k today sch0 prev0 st0 nd0))
                = fst (snd (do_sync_loop e k today sch prev st nd))"
    using iterates_do_sync_loop [OF assms(1)] by (simp split: prod.splits)
  obtain out' sch' res where it: "iteration e k sch prev nd = (out', sch', res)"
    by (cases "iteration e k sch prev nd") auto
  have k: "map_of (properties sch') c = Some v" using assms(4) it by simp
  have "map_of (properties (fst (snd (do_sync_loop e k today sch prev st nd)))) c = Some v"
  proof (cases res)
    case (Inl err)
    from do_sync_loop_stop [OF assms(2,3) it [unfolded Inl], of st] k show ?thesis by simp
  next
    case (Inr w)
    obtain st' nd' pv where w: "w = (st', nd', pv)" by (cases w) auto
    have it': "iteration e k sch prev nd = (out', sch', Inr (st', nd', pv))"
      using it Inr w by simp
    have "fst (snd (do_sync_loop e k today sch prev st nd))
            = fst (snd (do_sync_loop e k today sch' pv st' nd'))"
      using do_sync_loop_unfold [OF assms(2,3) it', of st] by (simp split: prod.splits)
    with do_sync_loop_keeps [OF k, of e k today pv st' nd'] show ?thesis by simp
  qed
  with same show ?thesis by simp
qed

text \<open>
  C8: when a run of \<open>do_sync\<close> has come to a day that is due, every field the schema
  had when the run began is still there with its descriptor.  The iteration for that
  day, once it has its payload, leaves the schema as it was followed by one
  nullable-number field for each key of the raw rates that was not a field already, each
  such key once; the type of the schema stays.  The update comes before the two
  decisions: the decision on the schema message is made on the updated schema and the
  message carries it, and the schema message precedes the record.  What the iteration
  writes is the next part of the output of the run, and every field of the schema it
  leaves is a field of the schema, with the same descriptor, when the loop of the run
  ends.
\<close>

theorem schema_only_grows:
  assumes "iterates e k today (schema, Empty_dict, \<lparr>start_date = start\<rparr>, start) n out
             (sch, prev, st, nd)"
    and "strptime nd = Some d" "date_le d today"
    and "snd (request e (base_url @ nd) k) = Inr resp" "j_rates (json_body resp) = Some rs"
  shows "(\<forall>c v. map_of (properties schema) c = Some v \<longrightarrow> map_of (properties sch) c = Some v)
    \<and> (\<exists>new. properties (fst (snd (iteration e k sch prev nd)))
                = properties sch @ map (\<lambda>c. (c, Null_or_number)) new
          \<and> distinct new
          \<and> set new = {c \<in> fst ` set rs. map_of (properties sch) c = None})
    \<and> stype (fst (snd (iteration e k sch prev nd))) = stype sch
    \<and> schema_messages (fst (iteration e k sch prev nd))
        = (if schema_ne (fst (snd (iteration e k sch prev nd))) prev
           then [fst (snd (iteration e k sch prev nd))] else [])
    \<and> fst (iteration e k sch prev nd)
        = map (\<lambda>s. SCHEMA ''exchange_rate'' s ''date'')
            (schema_messages (fst (iteration e k sch prev nd)))
          @ map (RECORD ''exchange_rate'') (record_messages (fst (iteration e k sch prev nd)))
    \<and> (\<exists>rest. messages (do_sync e today start k)
                 = out @ fst (iteration e k sch prev nd) @ rest)
    \<and> (\<forall>c v. map_of (properties (fst (snd (iteration e k sch prev nd)))) c = Some v
          \<longrightarrow> map_of (properties (fst (snd (do_sync_loop e k today schema Empty_dict
                                               \<lparr>start_date = start\<rparr> start)))) c = Some v)"
proof -
  have 1: "\<forall>c v. map_of (properties schema) c = Some v \<longrightarrow> map_of (properties sch) c = Some v"
    using iterates_keeps [OF assms(1)] by simp
  have ev: "fst (snd (iteration e k sch prev nd)) = evolved sch rs"
    using assms(4,5) by (rule iteration_evolves)
  from add_rates_appends [of "map fst rs" "properties sch"] obtain new where
    "add_rates (map fst rs) (properties sch) = properties sch @ map (\<lambda>c. (c, Null_or_number)) new"
    "distinct new" "set new = {c \<in> set (map fst rs). map_of (properties sch) c = None}"
    by blast
  then have 2: "\<exists>new. properties (fst (snd (iteration e k sch prev nd)))
                = properties sch @ map (\<lambda>c. (c, Null_or_number)) new
          \<and> distinct new
          \<and> set new = {c \<in> fst ` set rs. map_of (properties sch) c = None}"
    unfolding ev by auto
  have 3: "stype (fst (snd (iteration e k sch prev nd))) = stype sch"
    unfolding ev by simp
  have 4: "schema_messages (fst (iteration e k sch prev nd))
        = (if schema_ne (fst (snd (iteration e k sch prev nd))) prev
           then [fst (snd (iteration e k sch prev nd))] else [])"
    unfolding ev by (rule iteration_schema_messages [OF assms(4,5)])
  have 5: "\<forall>c v. map_of (properties (fst (snd (iteration e k sch prev nd)))) c = Some v
          \<longrightarrow> map_of (properties (fst (snd (do_sync_loop e k today schema Empty_dict
                                               \<lparr>start_date = start\<rparr> start)))) c = Some v"
    using do_sync_loop_keeps_iteration [OF assms(1,2,3)] by blast
  from 1 2 3 4 5 iteration_message_order [of e k sch prev nd]
    do_sync_messages_at [OF assms(1,2,3)]
  show ?thesis by blast
qed

lemma api_growing_request:
  "snd (request api_growing (base_url @ ''2024-01-02'') ''key'')
     = Inr \<lparr>status_code = 200, body_text = [],
            json_body = \<lparr>j_base = Some ''USD'', j_date = Some ''2024-01-02'',
                         j_rates = Some [(''EUR'', 9 / 10), (''GBP'', 4 / 5)]\<rparr>\<rparr>"
  by (simp add: api_growing_def request_def request_body_def raise_for_status_def
      on_exception.simps requested_day_def)

lemma api_growing_after_1:
  "iterates api_growing ''key'' (Ymd 2024 1 3)
     (schema, Empty_dict, \<lparr>start_date = ''2024-01-01''\<rparr>, ''2024-01-01'') (Suc 0)
     [SCHEMA ''exchange_rate'' schema_eur ''date'', record_usd ''2024-01-01T00:00:00Z'']
     (schema_eur, Deepcopy schema_eur, \<lparr>start_date = ''2024-01-01''\<rparr>, ''2024-01-02'')"
proof -
  have p: "strptime ''2024-01-01'' = Some (Ymd 2024 1 1)" by (simp add: date_eval)
  have l: "date_le (Ymd 2024 1 1) (Ymd 2024 1 3)" by (simp add: date_eval)
  have i: "iteration api_growing ''key'' schema Empty_dict ''2024-01-01'' =
     ([SCHEMA ''exchange_rate'' schema_eur ''date'', record_usd ''2024-01-01T00:00:00Z''],
      schema_eur, Inr (\<lparr>start_date = ''2024-01-01''\<rparr>, ''2024-01-02'', Deepcopy schema_eur))"
    by (simp add: api_growing_def schema_eur_def record_usd_def tap_eval date_eval)
  from iterates.step [OF iterates.start p l i] show ?thesis by simp
qed

lemma distinct_single:
  assumes "distinct xs" "set xs = {x}"
  shows "xs = [x]"
proof (cases xs)
  case Nil
  with assms(2) show ?thesis by simp
next
  case (Cons a list)
  with assms have a: "a = x" and "a \<notin> set list" and "set list \<subseteq> {x}" by auto
  then have "set list = {}" by (cases list) auto
  with Cons a show ?thesis by simp
qed

theorem schema_only_grows_witness:
  "map_of (properties schema_eur) ''date'' = Some String_date_time
   \<and> properties
        (fst (snd (iteration api_growing ''key'' schema_eur (Deepcopy schema_eur) ''2024-01-02'')))
       = [(''date'', String_date_time), (''base'', String_plain), (''EUR'', Null_or_number),
          (''GBP'', Null_or_number)]
   \<and> schema_messages
        (fst (iteration api_growing ''key'' schema_eur (Deepcopy schema_eur) ''2024-01-02''))
       = [\<lparr>stype = ''object'',
           properties = [(''date'', String_date_time), (''base'', String_plain),
                         (''EUR'', Null_or_number), (''GBP'', Null_or_number)]\<rparr>]
   \<and> (\<exists>rest. messages (do_sync api_growing (Ymd 2024 1 3) ''2024-01-01'' ''key'')
                = [SCHEMA ''exchange_rate'' schema_eur ''date'',
                   record_usd ''2024-01-01T00:00:00Z'']
                  @ fst (iteration api_growing ''key'' schema_eur (Deepcopy schema_eur)
                           ''2024-01-02'')
                  @ rest)
   \<and> map_of (properties (fst (snd (do_sync_loop api_growing ''key'' (Ymd 2024 1 3) schema
                 Empty_dict \<lparr>start_date = ''2024-01-01''\<rparr> ''2024-01-01'')))) ''GBP''
       = Some Null_or_number"
proof -
  let ?it = "iteration api_growing ''key'' schema_eur (Deepcopy schema_eur) ''2024-01-02''"
  let ?rs = "[(''EUR'', 9 / 10), (''GBP'', 4 / 5)] :: real dict"
  have r: "j_rates (json_body \<lparr>status_code = 200, body_text = [],
            json_body = \<lparr>j_base = Some ''USD'', j_date = Some ''2024-01-02'',
                         j_rates = Some ?rs\<rparr>\<rparr>) = Some ?rs"
    by simp
  have p2: "strptime ''2024-01-02'' = Some (Ymd 2024 1 2)"
    and l2: "date_le (Ymd 2024 1 2) (Ymd 2024 1 3)"
    by (simp_all add: date_eval)
  note t = schema_only_grows [OF api_growing_after_1 p2 l2 api_growing_request r]
  have k: "map_of (properties schema_eur) ''date'' = Some String_date_time"
    using t by (simp add: schema_def)
  from t obtain new where
    n: "properties (fst (snd ?it)) = properties schema_eur @ map (\<lambda>c. (c, Null_or_number)) new"
      "distinct new" "set new = {c \<in> fst ` set ?rs. map_of (properties schema_eur) c = None}"
    by blast
  have "set new = {''GBP''}" unfolding n(3) by (auto simp: schema_eur_def)
  with n(2) have "new = [''GBP'']" by (rule distinct_single)
  with n(1) have p: "properties (fst (snd ?it))
       = [(''date'', String_date_time), (''base'', String_plain), (''EUR'', Null_or_number),
          (''GBP'', Null_or_number)]"
    by (simp add: schema_eur_def)
  from t have st: "stype (fst (snd ?it)) = ''object''" by (simp add: schema_eur_def)
  have e: "fst (snd ?it) = \<lparr>stype = ''object'',
           properties = [(''date'', String_date_time), (''base'', String_plain),
                         (''EUR'', Null_or_number), (''GBP'', Null_or_number)]\<rparr>"
    using p st by (cases "fst (snd ?it)") simp
  from t have "schema_messages (fst ?it)
        = (if schema_ne (fst (snd ?it)) (Deepcopy schema_eur) then [fst (snd ?it)] else [])"
    by blast
  then have m: "schema_messages (fst ?it) = [fst (snd ?it)]"
    unfolding e by (simp add: schema_eur_def dict_eq_def)
  from t have run: "\<exists>rest. messages (do_sync api_growing (Ymd 2024 1 3) ''2024-01-01'' ''key'')
                = [SCHEMA ''exchange_rate'' schema_eur ''date'',
                   record_usd ''2024-01-01T00:00:00Z''] @ fst ?it @ rest"
    by blast
  have g: "map_of (properties (fst (snd ?it))) ''GBP'' = Some Null_or_number"
    unfolding p by simp
  from t have "\<forall>c v. map_of (properties (fst (snd ?it))) c = Some v
          \<longrightarrow> map_of (properties (fst (snd (do_sync_loop api_growing ''key'' (Ymd 2024 1 3)
                  schema Empty_dict \<lparr>start_date = ''2024-01-01''\<rparr> ''2024-01-01'')))) c = Some v"
    by blast
  with g have f: "map_of (properties (fst (snd (do_sync_loop api_growing ''key'' (Ymd 2024 1 3)
                  schema Empty_dict \<lparr>start_date = ''2024-01-01''\<rparr> ''2024-01-01'')))) ''GBP''
       = Some Null_or_number"
    by blast
  from k p m e run f show ?thesis by simp
qed

section \<open>A payload without an expected key\<close>

lemma api_with_body_after_1:
  "iterates (api_with_body ''2024-01-02'' b) ''key'' (Ymd 2024 1 3)
     (schema, Empty_dict, \<lparr>start_date = ''2024-01-01''\<rparr>, ''2024-01-01'') (Suc 0)
     [SCHEMA ''exchange_rate'' schema_eur ''date'', record_usd ''2024-01-01T00:00:00Z'']
     (schema_eur, Deepcopy schema_eur, \<lparr>start_date = ''2024-01-01''\<rparr>, ''2024-01-02'')"
proof -
  have p: "strptime ''2024-01-01'' = Some (Ymd 2024 1 1)" by (simp add: date_eval)
  have l: "date_le (Ymd 2024 1 1) (Ymd 2024 1 3)" by (simp add: date_eval)
  have i: "iteration (api_with_body ''2024-01-02'' b) ''key'' schema Empty_dict ''2024-01-01'' =
     ([SCHEMA ''exchange_rate'' schema_eur ''date'', record_usd ''2024-01-01T00:00:00Z''],
      schema_eur, Inr (\<lparr>start_date = ''2024-01-01''\<rparr>, ''2024-01-02'', Deepcopy schema_eur))"
    by (simp add: api_with_body_def schema_eur_def record_usd_def tap_eval date_eval)
  from iterates.step [OF iterates.start p l i] show ?thesis by simp
qed

text \<open>
  C9, as stated, fails for the expected key \<^verbatim>\<open>base\<close>: the tap reads it only in
  \<open>parse_response\<close>, which is called only when the payload's date is the day asked
  for.  With the answer for 2024-01-02 dated 2024-01-01 and without \<^verbatim>\<open>base\<close>, the
  run from 2024-01-01 on the UTC day 2024-01-03 skips that day, goes on to the next and
  ends normally, with the state 2024-01-03 and the process status 0.
\<close>

theorem missing_base_with_stale_date_is_skipped:
  "snd (request (api_with_body ''2024-01-02'' body_without_base) (base_url @ ''2024-01-02'')
          ''key'')
     = Inr \<lparr>status_code = 200, body_text = [], json_body = body_without_base\<rparr>
   \<and> j_base body_without_base = None
   \<and> do_sync (api_with_body ''2024-01-02'' body_without_base) (Ymd 2024 1 3) ''2024-01-01''
        ''key''
     = \<lparr>messages =
          [SCHEMA ''exchange_rate'' schema_eur ''date'', record_usd ''2024-01-01T00:00:00Z'',
           record_usd ''2024-01-03T00:00:00Z'', STATE \<lparr>start_date = ''2024-01-03''\<rparr>],
        outcome = Normal\<rparr>
   \<and> exit_code
        (outcome (do_sync (api_with_body ''2024-01-02'' body_without_base) (Ymd 2024 1 3)
           ''2024-01-01'' ''key'')) = 0"
  by (simp add: api_with_body_def body_without_base_def schema_eur_def record_usd_def
      tap_eval date_eval)

text \<open>
  C9 (amended): when a run of \<open>do_sync\<close> comes to a day that is due and the payload
  fetched for it has no \<^verbatim>\<open>rates\<close>, or no \<^verbatim>\<open>date\<close>, or the date of that day and
  no \<^verbatim>\<open>base\<close>, the iteration raises \<^verbatim>\<open>KeyError\<close> and yields no new cursor, the
  loop stops there, and the run ends through \<^verbatim>\<open>sys.exit(-1)\<close>, a process status
  that is not 0.  No record is written for that day or after it, and no STATE message.
  A payload without \<^verbatim>\<open>base\<close> that has \<^verbatim>\<open>rates\<close> and another date raises
  nothing: no record is written for that day and the iteration ends normally with the
  cursor on the next day.
\<close>

theorem malformed_payload_is_fatal:
  assumes "iterates e k today (schema, Empty_dict, \<lparr>start_date = start\<rparr>, start) n out
             (sch, prev, st, nd)"
    and "strptime nd = Some d" "date_le d today"
    and "snd (request e (base_url @ nd) k) = Inr resp"
  shows "(j_rates (json_body resp) = None \<or> j_date (json_body resp) = None
          \<or> (j_date (json_body resp) = Some nd \<and> j_base (json_body resp) = None)
        \<longrightarrow> (snd (snd (iteration e k sch prev nd)) = Inl (KeyError ''rates'')
              \<or> snd (snd (iteration e k sch prev nd)) = Inl (KeyError ''date'')
              \<or> snd (snd (iteration e k sch prev nd)) = Inl (KeyError ''base''))
          \<and> messages (do_sync e today start k) = out @ fst (iteration e k sch prev nd)
          \<and> record_messages (fst (iteration e k sch prev nd)) = []
          \<and> record_messages (messages (do_sync e today start k)) = record_messages out
          \<and> state_messages (messages (do_sync e today start k)) = []
          \<and> outcome (do_sync e today start k) = Sys_exit (- 1)
          \<and> exit_code (outcome (do_sync e today start k)) = 255)
    \<and> (\<forall>rs dt d'. j_rates (json_body resp) = Some rs \<and> j_date (json_body resp) = Some dt
            \<and> dt \<noteq> nd \<and> j_base (json_body resp) = None \<and> add_day d = Some d'
          \<longrightarrow> record_messages (fst (iteration e k sch prev nd)) = []
              \<and> snd (snd (iteration e k sch prev nd))
                  = Inr (\<lparr>start_date = nd\<rparr>, strftime d', Deepcopy (evolved sch rs)))"
proof -
  have fatal: "(snd (snd (iteration e k sch prev nd)) = Inl (KeyError ''rates'')
              \<or> snd (snd (iteration e k sch prev nd)) = Inl (KeyError ''date'')
              \<or> snd (snd (iteration e k sch prev nd)) = Inl (KeyError ''base''))
          \<and> messages (do_sync e today start k) = out @ fst (iteration e k sch prev nd)
          \<and> record_messages (fst (iteration e k sch prev nd)) = []
          \<and> record_messages (messages (do_sync e today start k)) = record_messages out
          \<and> state_messages (messages (do_sync e today start k)) = []
          \<and> outcome (do_sync e today start k) = Sys_exit (- 1)
          \<and> exit_code (outcome (do_sync e today start k)) = 255"
    if bad: "j_rates (json_body resp) = None \<or> j_date (json_body resp) = None
          \<or> (j_date (json_body resp) = Some nd \<and> j_base (json_body resp) = None)"
  proof -
    have "\<exists>out' sch' key. iteration e k sch prev nd = (out', sch', Inl (KeyError key))
            \<and> record_messages out' = []
            \<and> (key = ''rates'' \<or> key = ''date'' \<or> key = ''base'')"
    proof (cases "j_rates (json_body resp)")
      case None
      from iteration_no_rates [OF assms(4) None, of sch prev] show ?thesis by simp
    next
      case (Some rs)
      show ?thesis
      proof (cases "j_date (json_body resp)")
        case None
        from iteration_no_date [OF assms(4) Some None, of sch prev] show ?thesis by simp
      next
        case (Some dt)
        with bad \<open>j_rates (json_body resp) = Some rs\<close>
        have "j_date (json_body resp) = Some nd" "j_base (json_body resp) = None" by simp_all
        from iteration_no_base [OF assms(4) \<open>j_rates (json_body resp) = Some rs\<close> this,
            of sch prev]
        show ?thesis by simp
      qed
    qed
    then obtain out' sch' key where
      i: "iteration e k sch prev nd = (out', sch', Inl (KeyError key))"
      and r: "record_messages out' = []"
      and key: "key = ''rates'' \<or> key = ''date'' \<or> key = ''base''"
      by blast
    have run: "do_sync e today start k
                 = \<lparr>messages = out @ out', outcome = handler (KeyError key)\<rparr>"
      using assms(1,2,3) i by (rule do_sync_fatal_end)
    have s: "state_messages (out @ out') = []"
      using iterates_no_state [OF assms(1)] iteration_no_state [of e k sch prev nd] i by simp
    show ?thesis
      unfolding run using i r key s by auto
  qed
  have skip: "record_messages (fst (iteration e k sch prev nd)) = []
              \<and> snd (snd (iteration e k sch prev nd))
                  = Inr (\<lparr>start_date = nd\<rparr>, strftime d', Deepcopy (evolved sch rs))"
    if "j_rates (json_body resp) = Some rs \<and> j_date (json_body resp) = Some dt
            \<and> dt \<noteq> nd \<and> j_base (json_body resp) = None \<and> add_day d = Some d'" for rs dt d'
  proof -
    from that have a: "j_rates (json_body resp) = Some rs" "j_date (json_body resp) = Some dt"
      "dt \<noteq> nd" "add_day d = Some d'" by simp_all
    from iteration_mismatch [OF assms(4) a(1,2,3) assms(2) a(4), of sch prev]
    show ?thesis by simp
  qed
  from fatal skip show ?thesis by blast
qed

theorem malformed_payload_is_fatal_witness:
  "do_sync (api_with_body ''2024-01-02'' body_without_date) (Ymd 2024 1 3) ''2024-01-01'' ''key''
     = \<lparr>messages =
          [SCHEMA ''exchange_rate'' schema_eur ''date'', record_usd ''2024-01-01T00:00:00Z''],
        outcome = Sys_exit (- 1)\<rparr>
   \<and> do_sync (api_with_body ''2024-01-01'' body_without_rates) (Ymd 2024 1 3) ''2024-01-01''
        ''key''
     = \<lparr>messages = [], outcome = Sys_exit (- 1)\<rparr>
   \<and> snd (snd (iteration (api_with_body ''2024-01-02'' body_without_base) ''key'' schema_eur
                 (Deepcopy schema_eur) ''2024-01-02''))
       = Inr (\<lparr>start_date = ''2024-01-02''\<rparr>, ''2024-01-03'', Deepcopy schema_eur)"
proof -
  have p2: "strptime ''2024-01-02'' = Some (Ymd 2024 1 2)"
    and l2: "date_le (Ymd 2024 1 2) (Ymd 2024 1 3)"
    and p1: "strptime ''2024-01-01'' = Some (Ymd 2024 1 1)"
    and l1: "date_le (Ymd 2024 1 1) (Ymd 2024 1 3)"
    and a2: "add_day (Ymd 2024 1 2) = Some (Ymd 2024 1 3)"
    and f2: "strftime (Ymd 2024 1 3) = ''2024-01-03''"
    and ne: "''2024-01-01'' \<noteq> ''2024-01-02''"
    by (simp_all add: date_eval)
  have d: "j_date (json_body \<lparr>status_code = 200, body_text = [],
                json_body = body_without_date\<rparr>) = None"
    by (simp add: body_without_date_def)
  have r: "j_rates (json_body \<lparr>status_code = 200, body_text = [],
                json_body = body_without_rates\<rparr>) = None"
    by (simp add: body_without_rates_def)
  have b: "j_rates (json_body \<lparr>status_code = 200, body_text = [],
                json_body = body_without_base\<rparr>) = Some [(''EUR'', 9 / 10)]"
    "j_date (json_body \<lparr>status_code = 200, body_text = [],
                json_body = body_without_base\<rparr>) = Some ''2024-01-01''"
    "j_base (json_body \<lparr>status_code = 200, body_text = [],
                json_body = body_without_base\<rparr>) = None"
    by (simp_all add: body_without_base_def)
  have i2: "fst (iteration (api_with_body ''2024-01-02'' body_without_date) ''key'' schema_eur
               (Deepcopy schema_eur) ''2024-01-02'') = []"
    by (simp add: api_with_body_def body_without_date_def schema_eur_def tap_eval)
  have i1: "fst (iteration (api_with_body ''2024-01-01'' body_without_rates) ''key'' schema
               Empty_dict ''2024-01-01'') = []"
    by (simp add: api_with_body_def body_without_rates_def tap_eval)
  from malformed_payload_is_fatal
    [OF api_with_body_after_1 [of body_without_date] p2 l2
        api_with_body_request [of "''2024-01-02''" body_without_date]] d i2
  have 1: "do_sync (api_with_body ''2024-01-02'' body_without_date) (Ymd 2024 1 3)
             ''2024-01-01'' ''key''
     = \<lparr>messages =
          [SCHEMA ''exchange_rate'' schema_eur ''date'', record_usd ''2024-01-01T00:00:00Z''],
        outcome = Sys_exit (- 1)\<rparr>"
    by (cases "do_sync (api_with_body ''2024-01-02'' body_without_date) (Ymd 2024 1 3)
             ''2024-01-01'' ''key''") simp
  from malformed_payload_is_fatal
    [OF iterates.start [of "api_with_body ''2024-01-01'' body_without_rates" "''key''"
          "Ymd 2024 1 3"
          "(schema, Empty_dict, \<lparr>start_date = ''2024-01-01''\<rparr>, ''2024-01-01'')"]
      p1 l1 api_with_body_request [of "''2024-01-01''" body_without_rates]] r i1
  have 2: "do_sync (api_with_body ''2024-01-01'' body_without_rates) (Ymd 2024 1 3) ''2024-01-01''
        ''key''
     = \<lparr>messages = [], outcome = Sys_exit (- 1)\<rparr>"
    by (cases "do_sync (api_with_body ''2024-01-01'' body_without_rates) (Ymd 2024 1 3)
        ''2024-01-01'' ''key''") simp
  from malformed_payload_is_fatal
    [OF api_with_body_after_1 [of body_without_base] p2 l2
        api_with_body_request [of "''2024-01-02''" body_without_base]] b ne a2
  have "snd (snd (iteration (api_with_body ''2024-01-02'' body_without_base) ''key'' schema_eur
                 (Deepcopy schema_eur) ''2024-01-02''))
       = Inr (\<lparr>start_date = ''2024-01-02''\<rparr>, strftime (Ymd 2024 1 3),
              Deepcopy (evolved schema_eur [(''EUR'', 9 / 10)]))"
    by blast
  then have 3: "snd (snd (iteration (api_with_body ''2024-01-02'' body_without_base) ''key''
                   schema_eur (Deepcopy schema_eur) ''2024-01-02''))
       = Inr (\<lparr>start_date = ''2024-01-02''\<rparr>, ''2024-01-03'', Deepcopy schema_eur)"
    unfolding f2 by (simp add: schema_eur_def)
  from 1 2 3 show ?thesis by simp
qed

end
